theory Spec2Isabelle
  imports Main "HOL-Library.AList" "HOL-Library.Multiset"
begin

section \<open>Python strings\<close>

text \<open>
  A Python \<open>str\<close> is modelled as a \<open>string\<close> whose characters are single ASCII
  characters. \<open>str.upper\<close> and \<open>str.lower\<close> are modelled on the ASCII letters; every
  other character is left as it is.
\<close>

definition upper_char :: "char \<Rightarrow> char" where
  "upper_char c =
     (let n = (of_char c :: nat) in if 97 \<le> n \<and> n \<le> 122 then char_of (n - 32) else c)"

definition lower_char :: "char \<Rightarrow> char" where
  "lower_char c =
     (let n = (of_char c :: nat) in if 65 \<le> n \<and> n \<le> 90 then char_of (n + 32) else c)"

definition upper :: "string \<Rightarrow> string" where
  "upper s = map upper_char s"

definition lower :: "string \<Rightarrow> string" where
  "lower s = map lower_char s"

text \<open>\<open>needle in haystack\<close> on strings: the needle occurs as a contiguous run.\<close>

fun starts_with :: "string \<Rightarrow> string \<Rightarrow> bool" where
  "starts_with [] s = True"
| "starts_with (a # p) [] = False"
| "starts_with (a # p) (b # s) = (a = b \<and> starts_with p s)"

fun py_in :: "string \<Rightarrow> string \<Rightarrow> bool" where
  "py_in needle [] = (needle = [])"
| "py_in needle (b # s) = (starts_with needle (b # s) \<or> py_in needle s)"

section \<open>TrieNode and Trie\<close>

text \<open>
  A \<open>TrieNode\<close> has the fields \<open>children\<close> (a dict from a character to a node),
  \<open>defn\<close> and \<open>end\<close>. A Python dict enumerates its keys in insertion order, so
  \<open>children\<close> is an association list with distinct keys in insertion order.
  A \<open>Trie\<close> is its root node.
\<close>

datatype trie = TrieNode (children: "(char \<times> trie) list") (defn: string) (is_end: bool)

definition empty_node :: trie where
  "empty_node = TrieNode [] [] False"

text \<open>\<open>Trie.insert\<close>: a missing child is created as a fresh node at the end of the dict.\<close>

fun insert :: "trie \<Rightarrow> string \<Rightarrow> string \<Rightarrow> trie" where
  "insert (TrieNode cs d e) [] dfn = TrieNode cs dfn True"
| "insert (TrieNode cs d e) (c # w) dfn =
     (case map_of cs c of
        None \<Rightarrow> TrieNode (cs @ [(c, insert empty_node w dfn)]) d e
      | Some t \<Rightarrow> TrieNode (AList.update c (insert t w dfn) cs) d e)"

text \<open>\<open>Trie.build_trie\<close> with \<open>limit = None\<close>, and \<open>Trie.build_trie_defs\<close>.\<close>

fun build_trie :: "trie \<Rightarrow> string list \<Rightarrow> trie" where
  "build_trie t [] = t"
| "build_trie t (w # ws) = build_trie (insert t w []) ws"

fun build_trie_defs :: "trie \<Rightarrow> (string \<times> string) list \<Rightarrow> trie" where
  "build_trie_defs t [] = t"
| "build_trie_defs t ((w, d) # ws) = build_trie_defs (insert t w d) ws"

text \<open>
  \<open>Trie.has_prefix\<close>: the loop over the characters of \<open>prefix\<close>, with the local
  \<open>temp_word\<close>. The comparison \<open>temp_word == prefix\<close> comes before the lookup of the
  character in the node's children.
\<close>

fun has_prefix_loop :: "trie \<Rightarrow> string \<Rightarrow> string \<Rightarrow> string \<Rightarrow> bool" where
  "has_prefix_loop node temp_word [] prefix = False"
| "has_prefix_loop node temp_word (c # rest) prefix =
     (let temp_word' = temp_word @ [c] in
      if temp_word' = prefix then True
      else (case map_of (children node) c of
              Some t \<Rightarrow> has_prefix_loop t temp_word' rest prefix
            | None \<Rightarrow> False))"

definition has_prefix :: "trie \<Rightarrow> string \<Rightarrow> bool" where
  "has_prefix root prefix = has_prefix_loop root [] prefix prefix"

text \<open>\<open>Trie.search\<close>.\<close>

fun search :: "trie \<Rightarrow> string \<Rightarrow> bool" where
  "search node [] = is_end node"
| "search node (c # w) =
     (case map_of (children node) c of Some t \<Rightarrow> search t w | None \<Rightarrow> False)"

text \<open>
  \<open>Trie.get_defn\<close> returns either the string \<open>node.defn\<close> or the Python value
  \<open>False\<close>; \<open>None\<close> stands for \<open>False\<close>.
\<close>

fun get_defn :: "trie \<Rightarrow> string \<Rightarrow> string option" where
  "get_defn node [] = Some (defn node)"
| "get_defn node (c # w) =
     (case map_of (children node) c of Some t \<Rightarrow> get_defn t w | None \<Rightarrow> None)"

text \<open>The node at the end of the path of a string, when the path exists.\<close>

fun descend :: "trie \<Rightarrow> string \<Rightarrow> trie option" where
  "descend node [] = Some node"
| "descend node (c # w) =
     (case map_of (children node) c of Some t \<Rightarrow> descend t w | None \<Rightarrow> None)"

text \<open>
  \<open>Trie.walk_trie\<close> and \<open>Trie.walk_trie_defs\<close>: the words appended to \<open>word_list\<close>
  (and, in parallel, the definitions appended to \<open>def_list\<close>), in order.
\<close>

fun walk_trie :: "trie \<Rightarrow> string \<Rightarrow> string list"
  and walk_children :: "(char \<times> trie) list \<Rightarrow> string \<Rightarrow> string list" where
  "walk_trie (TrieNode cs d e) word = walk_children cs word"
| "walk_children [] word = []"
| "walk_children ((c, t) # rest) word =
     (if is_end t then [word @ [c]] else []) @ walk_trie t (word @ [c]) @ walk_children rest word"

fun walk_trie_defs :: "trie \<Rightarrow> string \<Rightarrow> (string \<times> string) list"
  and walk_children_defs :: "(char \<times> trie) list \<Rightarrow> string \<Rightarrow> (string \<times> string) list" where
  "walk_trie_defs (TrieNode cs d e) word = walk_children_defs cs word"
| "walk_children_defs [] word = []"
| "walk_children_defs ((c, t) # rest) word =
     (if is_end t then [(word @ [c], defn t)] else [])
       @ walk_trie_defs t (word @ [c]) @ walk_children_defs rest word"

text \<open>
  \<open>Trie.auto_complete(partial_word, node_start)\<close>: the caller passes the start node
  (the root when \<open>node_start\<close> is \<open>None\<close>).
\<close>

definition auto_complete :: "trie \<Rightarrow> string \<Rightarrow> string list" where
  "auto_complete node_start partial_word =
     (case descend node_start partial_word of
        None \<Rightarrow> []
      | Some node \<Rightarrow>
          (if is_end node then [partial_word] else []) @ walk_trie node partial_word)"

text \<open>
  The Python slice \<open>s[-n:]\<close>: the last \<open>n\<close> characters of \<open>s\<close>, the whole of
  \<open>s\<close> when it is shorter, and the whole of \<open>s\<close> when \<open>n = 0\<close> (as \<open>-0\<close> is \<open>0\<close>).
\<close>

definition py_last_n :: "nat \<Rightarrow> string \<Rightarrow> string" where
  "py_last_n n s = (if n = 0 then s else drop (length s - n) s)"

text \<open>
  \<open>Trie.contains_partial\<close>. The nested function \<open>_contains_partial\<close> reads and writes
  the module's global \<open>RETRACE_WORD\<close> and appends to the shared \<open>_word_list\<close>; both are
  threaded through as a pair. \<open>_prefix\<close> is a local of each call, changed by the loop
  over the children; \<open>_node\<close> is set back to the node of the call at the end of every
  iteration that does not leave the loop. On a match the loop is left by \<open>break\<close>.
  \<open>auto_complete\<close> is called with the \<open>node\<close> of the enclosing function, the root.
\<close>

fun contains_partial_node ::
    "trie \<Rightarrow> string \<Rightarrow> trie \<Rightarrow> string \<Rightarrow> bool \<times> string list \<Rightarrow> bool \<times> string list"
  and contains_partial_loop ::
    "trie \<Rightarrow> string \<Rightarrow> (char \<times> trie) list \<Rightarrow> string \<Rightarrow> bool \<times> string list
       \<Rightarrow> bool \<times> string list" where
  "contains_partial_node root token (TrieNode cs d e) prefix st =
     contains_partial_loop root token cs prefix st"
| "contains_partial_loop root token [] prefix st = st"
| "contains_partial_loop root token ((c, t) # rest) prefix st =
     (let prefix1 = (if fst st then butlast prefix else prefix);
          prefix2 = prefix1 @ [c]
      in if py_last_n (length token) prefix2 = token
         then (False, snd st @ auto_complete root prefix2)
         else if children t \<noteq> []
         then (let st2 = contains_partial_node root token t prefix2 (False, snd st)
               in contains_partial_loop root token rest prefix2
                    (if length prefix2 = 1 then True else fst st2, snd st2))
         else contains_partial_loop root token rest prefix2 (True, snd st))"

text \<open>
  \<open>contains_partial root retrace_word token\<close>: \<open>retrace_word\<close> is the value of the
  global \<open>RETRACE_WORD\<close> at the call (\<open>False\<close> when the module is loaded); the result
  is the value of the global after the call and the returned \<open>word_list\<close>.
\<close>

definition contains_partial :: "trie \<Rightarrow> bool \<Rightarrow> string \<Rightarrow> bool \<times> string list" where
  "contains_partial root retrace_word token =
     contains_partial_node root token root [] (retrace_word, [])"

section \<open>itertools.permutations\<close>

text \<open>
  \<open>itertools.permutations(word)\<close> yields the arrangements of the positions of \<open>word\<close>
  in lexicographic order of the positions: the first element is each position in turn,
  followed by the permutations of the other positions.
\<close>

fun picks :: "'a list \<Rightarrow> ('a \<times> 'a list) list" where
  "picks [] = []"
| "picks (x # xs) = (x, xs) # map (\<lambda>(y, ys). (y, x # ys)) (picks xs)"

lemma picks_length: "(y, ys) \<in> set (picks xs) \<Longrightarrow> length ys < length xs"
  by (induction xs arbitrary: y ys) auto

function permutations :: "'a list \<Rightarrow> 'a list list" where
  "permutations [] = [[]]"
| "permutations (x # xs) =
     concat (map (\<lambda>(y, ys). map ((#) y) (permutations ys)) (picks (x # xs)))"
  by pat_completeness auto
termination
  by (relation "measure length") (auto dest: picks_length)

definition find_permutations :: "string \<Rightarrow> string list" where
  "find_permutations word = permutations word"

section \<open>Dictionary\<close>

text \<open>
  A \<open>Dictionary\<close> holds the private trie \<open>__dct\<close> and the flag \<open>use_defs\<close>. Its
  constructor fills the trie from a file; the model starts from the trie.
\<close>

record Dictionary =
  dct :: trie
  use_defs :: bool

definition is_word :: "Dictionary \<Rightarrow> string \<Rightarrow> bool" where
  "is_word self word = search (dct self) (upper word)"

definition get_def :: "Dictionary \<Rightarrow> string \<Rightarrow> string option" where
  "get_def self word = get_defn (dct self) (upper word)"

definition has_words_starting_with :: "Dictionary \<Rightarrow> string \<Rightarrow> bool" where
  "has_words_starting_with self root = has_prefix (dct self) root"

definition get_words_starting_with :: "Dictionary \<Rightarrow> string \<Rightarrow> string list" where
  "get_words_starting_with self root = auto_complete (dct self) root"

text \<open>
  \<open>Dictionary.get_words_with_x_in_def\<close>. With \<open>include_def\<close> the result is a dict from
  word to definition; without, a dict from the lowercased search string to the list of
  words found, or to the list holding the empty string when there is none.
\<close>

datatype x_in_def = WordDefs "(string \<times> string) list" | WordLists "(string \<times> string list) list"

definition get_words_with_x_in_def :: "Dictionary \<Rightarrow> string \<Rightarrow> bool \<Rightarrow> x_in_def" where
  "get_words_with_x_in_def self string include_def =
     (let entries = walk_trie_defs (dct self) [];
          string' = lower string;
          found = filter (\<lambda>(w, d). py_in string' d) entries
      in if include_def
         then WordDefs (foldl (\<lambda>acc (w, d). AList.update w d acc) [] found)
         else WordLists [(string', if found = [] then [[]] else map fst found)])"

text \<open>
  \<open>Dictionary.find_anagrams\<close> returns \<open>list(set(word_list))\<close>, a list without
  duplicates in an order that Python does not fix: the model returns the set.
\<close>

definition find_anagrams :: "Dictionary \<Rightarrow> string \<Rightarrow> string set" where
  "find_anagrams self word = set (filter (search (dct self)) (find_permutations word))"

section \<open>Properties of the case mappings and of the trie\<close>

lemma upper_char_idem: "upper_char (upper_char c) = upper_char c"
proof (cases "97 \<le> (of_char c :: nat) \<and> (of_char c :: nat) \<le> 122")
  case True
  then have "(of_char c :: nat) - 32 < 256" by linarith
  then have m: "((of_char c :: nat) - 32) mod 256 = of_char c - 32" by (rule mod_less)
  from True have "\<not> (97 \<le> (of_char c :: nat) - 32)" by linarith
  with True m show ?thesis by (simp add: upper_char_def Let_def)
next
  case False
  then show ?thesis by (auto simp add: upper_char_def Let_def)
qed

lemma upper_idem: "upper (upper s) = upper s"
  by (simp add: upper_def upper_char_idem)

lemma search_descend:
  "search node w = (case descend node w of Some n \<Rightarrow> is_end n | None \<Rightarrow> False)"
  by (induction w arbitrary: node) (auto split: option.splits)

lemma get_defn_descend: "get_defn node w = map_option defn (descend node w)"
  by (induction w arbitrary: node) (auto split: option.splits)

lemma has_prefix_loop_descend:
  "has_prefix_loop node temp_word rest (temp_word @ rest)
     = (rest \<noteq> [] \<and> descend node (butlast rest) \<noteq> None)"
proof (induction rest arbitrary: node temp_word)
  case Nil
  show ?case by simp
next
  case (Cons c rest)
  show ?case
  proof (cases "rest = []")
    case True
    then show ?thesis by simp
  next
    case False
    have "has_prefix_loop t ((temp_word @ [c]) @ rest) rest' ((temp_word @ [c]) @ rest) =
          has_prefix_loop t ((temp_word @ [c]) @ rest) rest' (temp_word @ c # rest)"
      for t rest' by simp
    with False Cons.IH [of _ "temp_word @ [c]"] show ?thesis
      by (auto simp add: Let_def split: option.splits)
  qed
qed

text \<open>
  What \<open>has_prefix\<close> computes: the prefix is not empty and the path of the prefix
  without its last character exists.
\<close>

lemma has_prefix_descend:
  "has_prefix root prefix = (prefix \<noteq> [] \<and> descend root (butlast prefix) \<noteq> None)"
  using has_prefix_loop_descend [of root "[]" prefix] by (simp add: has_prefix_def)

lemma descend_insert: "\<exists>n. descend (insert t w d) w = Some n \<and> defn n = d \<and> is_end n"
proof (induction w arbitrary: t)
  case Nil
  show ?case by (cases t) simp
next
  case (Cons c w)
  obtain cs d0 e0 where t: "t = TrieNode cs d0 e0" by (cases t)
  show ?case
  proof (cases "map_of cs c")
    case None
    with t Cons.IH [of empty_node] show ?thesis by (simp add: map_of_append map_add_def)
  next
    case (Some u)
    with t Cons.IH [of u] show ?thesis by (simp add: update_conv')
  qed
qed

text \<open>A word is found, with its definition, once it is inserted.\<close>

lemma search_insert: "search (insert t w d) w"
  using descend_insert [of t w d] by (auto simp: search_descend)

lemma get_defn_insert: "get_defn (insert t w d) w = Some d"
  using descend_insert [of t w d] by (auto simp: get_defn_descend)

section \<open>Properties of the permutations\<close>

lemma picks_mset: "(y, ys) \<in> set (picks xs) \<Longrightarrow> mset xs = add_mset y (mset ys)"
  by (induction xs arbitrary: y ys) auto

lemma picks_mem: "y \<in> set xs \<Longrightarrow> \<exists>ys. (y, ys) \<in> set (picks xs)"
  by (induction xs) force+

lemma permutations_sound: "zs \<in> set (permutations xs) \<Longrightarrow> mset zs = mset xs"
proof (induction xs arbitrary: zs rule: permutations.induct)
  case 1
  then show ?case by simp
next
  case (2 x xs)
  from "2.prems" obtain y ys zs' where p: "(y, ys) \<in> set (picks (x # xs))"
    and z: "zs' \<in> set (permutations ys)" and zs: "zs = y # zs'"
    by (auto simp del: picks.simps)
  from "2.IH" [OF p refl z] have "mset zs' = mset ys" .
  with picks_mset [OF p] zs show ?case by simp
qed

lemma permutations_complete: "mset zs = mset xs \<Longrightarrow> zs \<in> set (permutations xs)"
proof (induction xs arbitrary: zs rule: permutations.induct)
  case 1
  then show ?case by simp
next
  case (2 x xs)
  from "2.prems" obtain z zs' where zs: "zs = z # zs'" by (cases zs) auto
  with "2.prems" have "z \<in> set (x # xs)" by (metis list.set_intros(1) mset_eq_setD)
  then obtain ys where p: "(z, ys) \<in> set (picks (x # xs))" using picks_mem by metis
  from picks_mset [OF p] "2.prems" zs have "mset zs' = mset ys" by simp
  from "2.IH" [OF p refl this] have "zs' \<in> set (permutations ys)" .
  with p zs show ?case by (force simp del: picks.simps)
qed

lemma set_permutations: "set (permutations xs) = {zs. mset zs = mset xs}"
  using permutations_sound permutations_complete by blast

lemma find_anagrams_eq:
  "find_anagrams self word = {a. mset a = mset word \<and> search (dct self) a}"
  by (auto simp: find_anagrams_def find_permutations_def set_permutations)

section \<open>Python lists and exceptions\<close>

datatype py_error = IndexError | KeyError | ValueError | StopIteration

text \<open>
  \<open>xs[i]\<close>: a negative index counts from the end, an index out of range raises
  \<open>IndexError\<close>. \<open>xs[i] = v\<close> follows the same rule.
\<close>

definition py_index :: "'a list \<Rightarrow> int \<Rightarrow> py_error + 'a" where
  "py_index xs i =
     (let n = int (length xs); j = (if i < 0 then i + n else i)
      in if 0 \<le> j \<and> j < n then Inr (xs ! nat j) else Inl IndexError)"

definition py_set :: "'a list \<Rightarrow> int \<Rightarrow> 'a \<Rightarrow> py_error + 'a list" where
  "py_set xs i v =
     (let n = int (length xs); j = (if i < 0 then i + n else i)
      in if 0 \<le> j \<and> j < n then Inr (xs[nat j := v]) else Inl IndexError)"

text \<open>\<open>grid[r][c]\<close> and \<open>grid[r][c] = v\<close> on a list of rows.\<close>

definition py_index2 :: "'a list list \<Rightarrow> int \<Rightarrow> int \<Rightarrow> py_error + 'a" where
  "py_index2 grid r c = (case py_index grid r of Inl e \<Rightarrow> Inl e | Inr line \<Rightarrow> py_index line c)"

definition py_set2 :: "'a list list \<Rightarrow> int \<Rightarrow> int \<Rightarrow> 'a \<Rightarrow> py_error + 'a list list" where
  "py_set2 grid r c v =
     (case py_index grid r of
        Inl e \<Rightarrow> Inl e
      | Inr line \<Rightarrow> (case py_set line c v of Inl e \<Rightarrow> Inl e | Inr line' \<Rightarrow> py_set grid r line'))"

section \<open>The globals of the module\<close>

definition BLANK_TILE_CHAR :: char where
  "BLANK_TILE_CHAR = CHR ''?''"

definition LETTER_SCORING :: "int list" where
  "LETTER_SCORING =
     [1, 3, 3, 2, 1, 4, 2, 4, 1,
      8, 5, 1, 3, 1, 1, 3, 10, 1,
      1, 1, 1, 4, 4, 8, 4, 10,
      0]"

definition LETTER_DICTIONARY :: "(char \<times> nat) list" where
  "LETTER_DICTIONARY =
     [(CHR ''A'', 0), (CHR ''B'', 1), (CHR ''C'', 2), (CHR ''D'', 3), (CHR ''E'', 4),
      (CHR ''F'', 5), (CHR ''G'', 6), (CHR ''H'', 7), (CHR ''I'', 8), (CHR ''J'', 9),
      (CHR ''K'', 10), (CHR ''L'', 11), (CHR ''M'', 12), (CHR ''N'', 13), (CHR ''O'', 14),
      (CHR ''P'', 15), (CHR ''Q'', 16), (CHR ''R'', 17), (CHR ''S'', 18), (CHR ''T'', 19),
      (CHR ''U'', 20), (CHR ''V'', 21), (CHR ''W'', 22), (CHR ''X'', 23), (CHR ''Y'', 24),
      (CHR ''Z'', 25), (BLANK_TILE_CHAR, 26)]"

definition WORD_MULTIPLIER :: char where
  "WORD_MULTIPLIER = CHR ''W''"

definition SCRABBLE_BOARD_MULTIPLIERS :: "string list list" where
  "SCRABBLE_BOARD_MULTIPLIERS =
    [[''3W'', ''1L'', ''1L'', ''2L'', ''1L'', ''1L'', ''1L'', ''3W'', ''1L'', ''1L'', ''1L'', ''2L'', ''1L'', ''1L'', ''3W''],
     [''1L'', ''2W'', ''1L'', ''1L'', ''1L'', ''3L'', ''1L'', ''1L'', ''1L'', ''3L'', ''1L'', ''1L'', ''1L'', ''2W'', ''1L''],
     [''1L'', ''1L'', ''2W'', ''1L'', ''1L'', ''1L'', ''2L'', ''1L'', ''2L'', ''1L'', ''1L'', ''1L'', ''2W'', ''1L'', ''1L''],
     [''2L'', ''1L'', ''1L'', ''2W'', ''1L'', ''1L'', ''1L'', ''2L'', ''1L'', ''1L'', ''1L'', ''2W'', ''1L'', ''1L'', ''2L''],
     [''1L'', ''1L'', ''1L'', ''1L'', ''2W'', ''1L'', ''1L'', ''1L'', ''1L'', ''1L'', ''2W'', ''1L'', ''1L'', ''1L'', ''1L''],
     [''1L'', ''3L'', ''1L'', ''1L'', ''1L'', ''3L'', ''1L'', ''1L'', ''1L'', ''3L'', ''1L'', ''1L'', ''1L'', ''3L'', ''1L''],
     [''1L'', ''1L'', ''2L'', ''1L'', ''1L'', ''1L'', ''2L'', ''1L'', ''2L'', ''1L'', ''1L'', ''1L'', ''2L'', ''1L'', ''1L''],
     [''3W'', ''1L'', ''1L'', ''2L'', ''1L'', ''1L'', ''1L'', ''2W'', ''1L'', ''1L'', ''1L'', ''2L'', ''1L'', ''1L'', ''3W''],
     [''1L'', ''1L'', ''2L'', ''1L'', ''1L'', ''1L'', ''2L'', ''1L'', ''2L'', ''1L'', ''1L'', ''1L'', ''2L'', ''1L'', ''1L''],
     [''1L'', ''3L'', ''1L'', ''1L'', ''1L'', ''3L'', ''1L'', ''1L'', ''1L'', ''3L'', ''1L'', ''1L'', ''1L'', ''3L'', ''1L''],
     [''1L'', ''1L'', ''1L'', ''1L'', ''2W'', ''1L'', ''1L'', ''1L'', ''1L'', ''1L'', ''2W'', ''1L'', ''1L'', ''1L'', ''1L''],
     [''2L'', ''1L'', ''1L'', ''2W'', ''1L'', ''1L'', ''1L'', ''2L'', ''1L'', ''1L'', ''1L'', ''2W'', ''1L'', ''1L'', ''2L''],
     [''1L'', ''1L'', ''2W'', ''1L'', ''1L'', ''1L'', ''2L'', ''1L'', ''2L'', ''1L'', ''1L'', ''1L'', ''2W'', ''1L'', ''1L''],
     [''1L'', ''2W'', ''1L'', ''1L'', ''1L'', ''3L'', ''1L'', ''1L'', ''1L'', ''3L'', ''1L'', ''1L'', ''1L'', ''2W'', ''1L''],
     [''3W'', ''1L'', ''1L'', ''2L'', ''1L'', ''1L'', ''1L'', ''3W'', ''1L'', ''1L'', ''1L'', ''2L'', ''1L'', ''1L'', ''3W'']]"

definition INVALID_PLAY :: int where
  "INVALID_PLAY = - 1"

datatype direction = DOWN | RIGHT

text \<open>
  \<open>Dictionary.get_word_score(word, letter_scoring)\<close> with a scoring list given, as the
  \<open>Board\<close> always passes one. A letter outside \<open>LETTER_DICTIONARY\<close> raises \<open>KeyError\<close>.
\<close>

fun get_word_score_loop :: "string \<Rightarrow> int list \<Rightarrow> int \<Rightarrow> py_error + int" where
  "get_word_score_loop [] scoring total_score = Inr total_score"
| "get_word_score_loop (letter # word) scoring total_score =
     (case map_of LETTER_DICTIONARY letter of
        None \<Rightarrow> Inl KeyError
      | Some i \<Rightarrow>
          (case py_index scoring (int i) of
             Inl e \<Rightarrow> Inl e
           | Inr v \<Rightarrow> get_word_score_loop word scoring (total_score + v)))"

definition get_word_score :: "string \<Rightarrow> int list \<Rightarrow> py_error + int" where
  "get_word_score word scoring = get_word_score_loop word scoring 0"

section \<open>Board\<close>

text \<open>
  The fields of a \<open>Board\<close> that its methods read or write: the grid \<open>board\<close> (a cell
  holds a letter or \<open>None\<close>), the \<open>multipliers\<close> (strings such as \<open>3W\<close>), the
  \<open>letter_scoring\<close> list and \<open>last_play\<close>. The rows of a grid are separate lists, as
  \<open>_create_2d_list\<close> builds them.
\<close>

record Board =
  board :: "char option list list"
  multipliers :: "string list list"
  letter_scoring :: "int list"
  last_play :: "(int \<times> int) list"

definition create_2d_list :: "nat \<Rightarrow> nat \<Rightarrow> 'a \<Rightarrow> 'a list list" where
  "create_2d_list total_rows total_cols v = replicate total_rows (replicate total_cols v)"

text \<open>\<open>len(grid[0])\<close> raises \<open>IndexError\<close> on a grid without rows.\<close>

definition len_first_row :: "'a list list \<Rightarrow> py_error + nat" where
  "len_first_row grid = (case grid of [] \<Rightarrow> Inl IndexError | line # _ \<Rightarrow> Inr (length line))"

definition set_board ::
    "char option list list option \<Rightarrow> string list list option \<Rightarrow> py_error + char option list list" where
  "set_board grid board_multipliers =
     (case (grid, board_multipliers) of
        (None, None) \<Rightarrow>
          (case len_first_row SCRABBLE_BOARD_MULTIPLIERS of
             Inl e \<Rightarrow> Inl e
           | Inr n \<Rightarrow> Inr (create_2d_list (length SCRABBLE_BOARD_MULTIPLIERS) n None))
      | (None, Some m) \<Rightarrow>
          (case len_first_row m of
             Inl e \<Rightarrow> Inl e
           | Inr n \<Rightarrow> Inr (create_2d_list (length m) n None))
      | (Some g, _) \<Rightarrow> Inr g)"

definition set_board_multipliers :: "string list list option \<Rightarrow> string list list" where
  "set_board_multipliers board_multipliers =
     (case board_multipliers of None \<Rightarrow> SCRABBLE_BOARD_MULTIPLIERS | Some m \<Rightarrow> m)"

definition set_letter_scoring :: "int list option \<Rightarrow> int list" where
  "set_letter_scoring scoring = (case scoring of None \<Rightarrow> LETTER_SCORING | Some l \<Rightarrow> l)"

text \<open>
  \<open>Board.__init__(game_dct, board, board_multipliers, letter_dist, letter_scoring)\<close>
  with the default \<open>letter_dist\<close>; \<open>game_dct\<close> is stored and not read again.
\<close>

definition Board_init ::
    "char option list list option \<Rightarrow> string list list option \<Rightarrow> int list option
       \<Rightarrow> py_error + Board" where
  "Board_init grid board_multipliers scoring =
     (case set_board grid board_multipliers of
        Inl e \<Rightarrow> Inl e
      | Inr g \<Rightarrow>
          Inr \<lparr>board = g, multipliers = set_board_multipliers board_multipliers,
               letter_scoring = set_letter_scoring scoring, last_play = []\<rparr>)"

definition is_valid_coord :: "Board \<Rightarrow> int \<Rightarrow> int \<Rightarrow> bool" where
  "is_valid_coord self r c =
     (case board self of
        [] \<Rightarrow> False
      | line # _ \<Rightarrow> 0 \<le> r \<and> r < int (length (board self)) \<and> 0 \<le> c \<and> c < int (length line))"

definition is_empty :: "Board \<Rightarrow> bool" where
  "is_empty self = list_all (list_all (\<lambda>tile. tile = None)) (board self)"

definition get_score :: "Board \<Rightarrow> string \<Rightarrow> py_error + int" where
  "get_score self word = get_word_score word (letter_scoring self)"

text \<open>
  \<open>Board.get_multiplier\<close>. \<open>str.isalpha\<close> is modelled on the ASCII letters, and
  \<open>float\<close> on the strings of decimal digits, which is what stands before the letter in
  every cell of \<open>SCRABBLE_BOARD_MULTIPLIERS\<close>; any other string is reported as
  \<open>ValueError\<close>. The values are integers, which Python holds as floats of the same
  value.
\<close>

definition isalpha :: "char \<Rightarrow> bool" where
  "isalpha c =
     (let n = (of_char c :: nat) in (65 \<le> n \<and> n \<le> 90) \<or> (97 \<le> n \<and> n \<le> 122))"

definition isdigit :: "char \<Rightarrow> bool" where
  "isdigit c = (let n = (of_char c :: nat) in 48 \<le> n \<and> n \<le> 57)"

definition py_float :: "string \<Rightarrow> py_error + int" where
  "py_float s =
     (if s \<noteq> [] \<and> list_all isdigit s
      then Inr (foldl (\<lambda>a c. 10 * a + (int (of_char c) - 48)) 0 s)
      else Inl ValueError)"

definition get_multiplier :: "Board \<Rightarrow> int \<Rightarrow> int \<Rightarrow> py_error + int" where
  "get_multiplier self r c =
     (case py_index2 (multipliers self) r c of
        Inl e \<Rightarrow> Inl e
      | Inr tile_multiplier \<Rightarrow>
          (case find isalpha tile_multiplier of
             None \<Rightarrow> Inl StopIteration
           | Some a \<Rightarrow>
               (let multiplier_identifier_index = length (takeWhile (\<lambda>x. x \<noteq> a) tile_multiplier)
                in case py_float (take multiplier_identifier_index tile_multiplier) of
                     Inl e \<Rightarrow> Inl e
                   | Inr m \<Rightarrow>
                       Inr (if WORD_MULTIPLIER \<in> set tile_multiplier then m * (- 1) else m))))"

text \<open>\<open>self.board[r][c] is not None\<close>, and the same behind \<open>_is_valid_coord\<close>.\<close>

definition occupied :: "Board \<Rightarrow> int \<Rightarrow> int \<Rightarrow> py_error + bool" where
  "occupied self r c =
     (case py_index2 (board self) r c of Inl e \<Rightarrow> Inl e | Inr tile \<Rightarrow> Inr (tile \<noteq> None))"

definition valid_and_occupied :: "Board \<Rightarrow> int \<Rightarrow> int \<Rightarrow> py_error + bool" where
  "valid_and_occupied self r c = (if is_valid_coord self r c then occupied self r c else Inr False)"

text \<open>\<open>a or b\<close>: \<open>b\<close> is evaluated only when \<open>a\<close> is false.\<close>

definition or_else :: "py_error + bool \<Rightarrow> py_error + bool \<Rightarrow> py_error + bool" where
  "or_else a b = (case a of Inl e \<Rightarrow> Inl e | Inr True \<Rightarrow> Inr True | Inr False \<Rightarrow> b)"

text \<open>\<open>Board._is_touching_word\<close>.\<close>

definition is_touching_word :: "Board \<Rightarrow> int \<Rightarrow> int \<Rightarrow> direction \<Rightarrow> py_error + bool" where
  "is_touching_word self r c dir =
     (case occupied self r c of
        Inl e \<Rightarrow> Inl e
      | Inr True \<Rightarrow> Inr True
      | Inr False \<Rightarrow>
     (case (if dir = DOWN
            then or_else (valid_and_occupied self r (c - 1)) (valid_and_occupied self r (c + 1))
            else or_else (valid_and_occupied self (r - 1) c) (valid_and_occupied self (r + 1) c)) of
        Inl e \<Rightarrow> Inl e
      | Inr True \<Rightarrow> Inr True
      | Inr False \<Rightarrow>
     (case (if dir = DOWN then valid_and_occupied self (r - 1) c
            else valid_and_occupied self r (c - 1)) of
        Inl e \<Rightarrow> Inl e
      | Inr tile_before \<Rightarrow>
          if tile_before \<and> last_play self = [] then Inr True
          else (if dir = DOWN then valid_and_occupied self (r + 1) c
                else valid_and_occupied self r (c + 1)))))"

text \<open>
  \<open>Board._get_cross_word_score\<close>. The nested \<open>_get_cross_word_score_piece\<close> sets its
  increments from \<open>cross_dir\<close> and \<open>is_neg_dir\<close>, steps once away from the letter and
  then reads \<open>self.board[new_row][new_col]\<close> until it finds \<open>None\<close>; the reads are
  plain list indexing.
\<close>

definition new_row_delta :: "direction \<Rightarrow> bool \<Rightarrow> int" where
  "new_row_delta cross_dir is_neg_dir =
     (if cross_dir = DOWN then (if is_neg_dir then - 1 else 1) else 0)"

definition new_col_delta :: "direction \<Rightarrow> bool \<Rightarrow> int" where
  "new_col_delta cross_dir is_neg_dir =
     (if cross_dir = DOWN then 0 else (if is_neg_dir then - 1 else 1))"

text \<open>The number of reads left before the index leaves the range of the list.\<close>

definition walk_room :: "'a list list \<Rightarrow> direction \<Rightarrow> bool \<Rightarrow> int \<Rightarrow> int \<Rightarrow> nat" where
  "walk_room grid cross_dir is_neg_dir r c =
     (if cross_dir = DOWN
      then (if is_neg_dir then nat (r + int (length grid) + 1) else nat (int (length grid) - r))
      else (let w = (case py_index grid r of Inr line \<Rightarrow> int (length line) | Inl e \<Rightarrow> 0)
            in if is_neg_dir then nat (c + w + 1) else nat (w - c)))"

lemma py_index_range:
  "py_index xs i = Inr v \<Longrightarrow> - int (length xs) \<le> i \<and> i < int (length xs)"
  by (auto simp: py_index_def Let_def split: if_splits)

lemma walk_room_decreases:
  assumes "py_index2 grid r c = Inr v"
  shows "walk_room grid cross_dir is_neg_dir
           (r + new_row_delta cross_dir is_neg_dir) (c + new_col_delta cross_dir is_neg_dir)
         < walk_room grid cross_dir is_neg_dir r c"
proof -
  from assms obtain line where l: "py_index grid r = Inr line" and c: "py_index line c = Inr v"
    by (auto simp: py_index2_def split: sum.splits)
  from py_index_range [OF l] py_index_range [OF c] l show ?thesis
    by (auto simp: walk_room_def new_row_delta_def new_col_delta_def)
qed

function cross_word_score_piece_loop ::
    "Board \<Rightarrow> direction \<Rightarrow> bool \<Rightarrow> int \<Rightarrow> int \<Rightarrow> int \<Rightarrow> py_error + int" where
  "cross_word_score_piece_loop self cross_dir is_neg_dir new_row new_col cross_score =
     (case py_index2 (board self) new_row new_col of
        Inl e \<Rightarrow> Inl e
      | Inr None \<Rightarrow> Inr cross_score
      | Inr (Some tile) \<Rightarrow>
          (case get_score self [tile] of
             Inl e \<Rightarrow> Inl e
           | Inr v \<Rightarrow>
               cross_word_score_piece_loop self cross_dir is_neg_dir
                 (new_row + new_row_delta cross_dir is_neg_dir)
                 (new_col + new_col_delta cross_dir is_neg_dir) (cross_score + v)))"
  by pat_completeness auto
termination
  by (relation "measure (\<lambda>(self, cross_dir, is_neg_dir, new_row, new_col, cross_score).
                   walk_room (board self) cross_dir is_neg_dir new_row new_col)")
     (auto intro: walk_room_decreases)

definition get_cross_word_score_piece ::
    "Board \<Rightarrow> int \<Rightarrow> int \<Rightarrow> direction \<Rightarrow> bool \<Rightarrow> py_error + int" where
  "get_cross_word_score_piece self r c cross_dir is_neg_dir =
     cross_word_score_piece_loop self cross_dir is_neg_dir
       (r + new_row_delta cross_dir is_neg_dir) (c + new_col_delta cross_dir is_neg_dir) 0"

definition get_cross_word_score ::
    "Board \<Rightarrow> char \<Rightarrow> int \<Rightarrow> int \<Rightarrow> direction \<Rightarrow> int \<Rightarrow> py_error + int" where
  "get_cross_word_score self letter r c dir multiplier =
     (let new_direction = (if dir = DOWN then RIGHT else DOWN)
      in case get_cross_word_score_piece self r c new_direction True of
           Inl e \<Rightarrow> Inl e
         | Inr piece_neg \<Rightarrow>
        (case get_cross_word_score_piece self r c new_direction False of
           Inl e \<Rightarrow> Inl e
         | Inr piece_pos \<Rightarrow>
        (case get_score self [letter] of
           Inl e \<Rightarrow> Inl e
         | Inr v \<Rightarrow>
             if multiplier \<ge> 0 then Inr ((piece_neg + piece_pos + v * multiplier) * 1)
             else Inr ((piece_neg + piece_pos + v) * (1 * abs multiplier)))))"

text \<open>
  \<open>Board.set_word\<close>. The locals of the loop over the letters, with the board itself,
  are the fields of \<open>play_vars\<close>. An exception leaves the loop with the board as it is
  at that moment; a result of the form \<open>Inl (e, self)\<close> is that exception and that
  board.
\<close>

record play_vars =
  v_self :: Board
  v_row :: int
  v_col :: int
  v_valid_play :: bool
  v_play_through_center :: bool
  v_touching_word :: bool
  v_score :: int
  v_cross_scores :: int
  v_total_multiplier :: int

definition advance :: "direction \<Rightarrow> play_vars \<Rightarrow> play_vars" where
  "advance dir st =
     (if dir = DOWN then st\<lparr>v_row := v_row st + 1\<rparr> else st\<lparr>v_col := v_col st + 1\<rparr>)"

text \<open>The branch \<open>self.board[row][col] is None\<close>: the tile is placed and scored.\<close>

definition place_tile :: "direction \<Rightarrow> char \<Rightarrow> play_vars \<Rightarrow> (py_error \<times> Board) + play_vars" where
  "place_tile dir letter st =
     (let self = v_self st; r = v_row st; c = v_col st
      in case py_set2 (board self) r c (Some letter) of
           Inl e \<Rightarrow> Inl (e, self)
         | Inr grid \<Rightarrow>
        (let self1 = self\<lparr>board := grid, last_play := last_play self @ [(r, c)]\<rparr>
         in case get_multiplier self1 r c of
              Inl e \<Rightarrow> Inl (e, self1)
            | Inr multiplier \<Rightarrow>
           (case get_score self1 [letter] of
              Inl e \<Rightarrow> Inl (e, self1)
            | Inr v \<Rightarrow>
           (let word_multiplier = (if multiplier \<ge> 0 then 1 else 1 * abs multiplier);
                score = (if multiplier \<ge> 0 then v_score st + v * multiplier else v_score st + v)
            in case (if dir = DOWN
                     then or_else (occupied self1 r (c - 1)) (occupied self1 r (c + 1))
                     else or_else (occupied self1 (r - 1) c) (occupied self1 (r + 1) c)) of
                 Inl e \<Rightarrow> Inl (e, self1)
               | Inr perpendicular \<Rightarrow>
              (case (if perpendicular then get_cross_word_score self1 letter r c dir multiplier
                     else Inr 0) of
                 Inl e \<Rightarrow> Inl (e, self1)
               | Inr cross \<Rightarrow>
                   Inr (advance dir
                     (st\<lparr>v_self := self1, v_score := score,
                         v_cross_scores := v_cross_scores st + cross,
                         v_total_multiplier := v_total_multiplier st * word_multiplier\<rparr>)))))))"

text \<open>One turn of the loop \<open>for letter in word\<close>.\<close>

definition set_letter ::
    "bool \<Rightarrow> int \<Rightarrow> int \<Rightarrow> direction \<Rightarrow> char \<Rightarrow> play_vars \<Rightarrow> (py_error \<times> Board) + play_vars" where
  "set_letter is_first_play board_center_row board_center_col dir letter st =
     (let self = v_self st; r = v_row st; c = v_col st
      in if is_valid_coord self r c
         then
           (let st1 = (if is_first_play \<and> r = board_center_row \<and> c = board_center_col
                       then st\<lparr>v_play_through_center := True\<rparr> else st)
            in case (if \<not> v_touching_word st1 \<and> \<not> is_first_play
                     then is_touching_word self r c dir else Inr False) of
                 Inl e \<Rightarrow> Inl (e, self)
               | Inr touching \<Rightarrow>
              (let st2 = (if touching then st1\<lparr>v_touching_word := True\<rparr> else st1)
               in case py_index2 (board self) r c of
                    Inl e \<Rightarrow> Inl (e, self)
                  | Inr None \<Rightarrow> place_tile dir letter st2
                  | Inr (Some tile) \<Rightarrow>
                      if tile = letter
                      then (case get_score self [letter] of
                              Inl e \<Rightarrow> Inl (e, self)
                            | Inr v \<Rightarrow> Inr (advance dir (st2\<lparr>v_score := v_score st2 + v\<rparr>)))
                      else Inr (advance dir (st2\<lparr>v_valid_play := False\<rparr>))))
         else Inr (advance dir (st\<lparr>v_valid_play := False\<rparr>)))"

fun set_word_loop ::
    "bool \<Rightarrow> int \<Rightarrow> int \<Rightarrow> direction \<Rightarrow> string \<Rightarrow> play_vars \<Rightarrow> (py_error \<times> Board) + play_vars" where
  "set_word_loop is_first_play board_center_row board_center_col dir [] st = Inr st"
| "set_word_loop is_first_play board_center_row board_center_col dir (letter # word) st =
     (case set_letter is_first_play board_center_row board_center_col dir letter st of
        Inl x \<Rightarrow> Inl x
      | Inr st' \<Rightarrow> set_word_loop is_first_play board_center_row board_center_col dir word st')"

definition set_word ::
    "Board \<Rightarrow> string \<Rightarrow> int \<Rightarrow> int \<Rightarrow> direction \<Rightarrow> (py_error \<times> Board) + ((int \<times> bool) \<times> Board)" where
  "set_word self word r c dir =
     (let self0 = self\<lparr>last_play := []\<rparr>;
          is_first_play = is_empty self0
      in case len_first_row (board self0) of
           Inl e \<Rightarrow> Inl (e, self0)
         | Inr n \<Rightarrow>
        (case set_word_loop is_first_play (int (length (board self0)) div 2) (int n div 2) dir
                (upper word)
                \<lparr>v_self = self0, v_row = r, v_col = c, v_valid_play = True,
                 v_play_through_center = False, v_touching_word = False, v_score = 0,
                 v_cross_scores = 0, v_total_multiplier = 1\<rparr> of
           Inl x \<Rightarrow> Inl x
         | Inr st \<Rightarrow>
             (let total_score = v_score st * v_total_multiplier st + v_cross_scores st;
                  all_valid =
                    (v_valid_play st
                     \<and> \<not> (is_first_play \<and> \<not> v_play_through_center st)
                     \<and> \<not> (\<not> is_first_play \<and> \<not> v_touching_word st))
              in Inr ((total_score, all_valid), v_self st))))"

text \<open>\<open>Board.undo_play\<close> and \<open>Board.play_word\<close>.\<close>

fun undo_play_loop :: "Board \<Rightarrow> (int \<times> int) list \<Rightarrow> (py_error \<times> Board) + Board" where
  "undo_play_loop self [] = Inr self"
| "undo_play_loop self ((r, c) # rest) =
     (case py_set2 (board self) r c None of
        Inl e \<Rightarrow> Inl (e, self)
      | Inr grid \<Rightarrow> undo_play_loop (self\<lparr>board := grid\<rparr>) rest)"

definition undo_play :: "Board \<Rightarrow> (py_error \<times> Board) + Board" where
  "undo_play self =
     (case undo_play_loop self (last_play self) of
        Inl x \<Rightarrow> Inl x
      | Inr self' \<Rightarrow> Inr (self'\<lparr>last_play := []\<rparr>))"

definition play_word ::
    "Board \<Rightarrow> string \<Rightarrow> int \<Rightarrow> int \<Rightarrow> direction \<Rightarrow> (py_error \<times> Board) + (int \<times> Board)" where
  "play_word self word r c dir =
     (case set_word self word r c dir of
        Inl x \<Rightarrow> Inl x
      | Inr ((score, was_valid_play), self1) \<Rightarrow>
          if was_valid_play then Inr (score, self1)
          else (case undo_play self1 of
                  Inl x \<Rightarrow> Inl x
                | Inr self2 \<Rightarrow> Inr (INVALID_PLAY, self2)))"

section \<open>The dictionary claims\<close>

text \<open>The dictionaries used as concrete inputs.\<close>

definition quiz_dictionary :: Dictionary where
  "quiz_dictionary =
     \<lparr>dct = build_trie_defs empty_node [(''QUIZ'', ''a test'')], use_defs = True\<rparr>"

definition stop_dictionary :: Dictionary where
  "stop_dictionary =
     \<lparr>dct = build_trie empty_node [''STOP'', ''POTS'', ''SPOT'', ''TOPS'', ''TOP''],
      use_defs = False\<rparr>"

definition cat_dictionary :: "string \<Rightarrow> Dictionary" where
  "cat_dictionary d = \<lparr>dct = build_trie_defs empty_node [(''CAT'', d)], use_defs = True\<rparr>"

text \<open>
  C4, at a failing input. The claim: \<open>has_prefix\<close> is true exactly for the empty prefix
  and for the prefixes whose path exists, so that a true answer means that a stored word
  begins with the prefix. In the dictionary that holds the one word QUIZ, the code
  answers true for QZ, which has no path and which no stored word begins with, and
  false for the empty prefix.
\<close>

theorem has_prefix_accepts_missing_path:
  "has_prefix (dct quiz_dictionary) ''QZ''
   \<and> descend (dct quiz_dictionary) ''QZ'' = None
   \<and> auto_complete (dct quiz_dictionary) ''QZ'' = []
   \<and> walk_trie (dct quiz_dictionary) [] = [''QUIZ'']
   \<and> \<not> has_prefix (dct quiz_dictionary) []"
  by code_simp

text \<open>
  C5, at a failing input. The claim: for a token that is not empty, \<open>contains_partial\<close>
  returns exactly the stored words that contain the token, whatever the order of the
  children. With AB inserted before CAB the code returns AB alone for the token A,
  although CAB is stored and contains A; with CAB inserted first it returns both.
\<close>

theorem contains_partial_misses_word:
  "snd (contains_partial (build_trie empty_node [''AB'', ''CAB'']) False ''A'') = [''AB'']
   \<and> search (build_trie empty_node [''AB'', ''CAB'']) ''CAB''
   \<and> py_in ''A'' ''CAB''
   \<and> snd (contains_partial (build_trie empty_node [''CAB'', ''AB'']) False ''A'')
       = [''CAB'', ''AB'']
   \<and> set (walk_trie (build_trie empty_node [''AB'', ''CAB'']) [])
       = set (walk_trie (build_trie empty_node [''CAB'', ''AB'']) [])"
  by code_simp

text \<open>
  C6, at a failing input. The claim: \<open>get_def\<close> returns the stored definition of a
  stored word and signals that nothing was found for every other string, also for one
  whose path is only the beginning of stored words. In the dictionary that holds QUIZ,
  QU is not a word, and \<open>get_def\<close> returns the empty string for it, not \<open>False\<close>
  (which it does return for QX, whose path does not exist).
\<close>

theorem get_def_of_proper_prefix:
  "\<not> is_word quiz_dictionary ''QU''
   \<and> get_def quiz_dictionary ''QU'' = Some []
   \<and> get_def quiz_dictionary ''QX'' = None
   \<and> get_def quiz_dictionary ''QUIZ'' = Some ''a test''"
  by code_simp

text \<open>
  C7, at a failing input. The claim: \<open>get_words_with_x_in_def\<close> compares without regard
  to case, so that a pair is in the result exactly when the search string occurs in the
  definition whatever the case of either. The word CAT is stored with the definition
  \<open>A Feline\<close>: the search string \<open>Feline\<close>, which occurs in it as it is, finds nothing,
  and neither does \<open>feline\<close>; once the definition is written in lower case, the same
  search finds the word.
\<close>

theorem x_in_def_is_case_sensitive:
  "py_in ''Feline'' ''A Feline''
   \<and> get_words_with_x_in_def (cat_dictionary ''A Feline'') ''Feline'' True = WordDefs []
   \<and> get_words_with_x_in_def (cat_dictionary ''A Feline'') ''feline'' True = WordDefs []
   \<and> get_words_with_x_in_def (cat_dictionary (lower ''A Feline'')) ''Feline'' True
       = WordDefs [(''CAT'', ''a feline'')]"
  by code_simp

text \<open>
  C9. Every element of \<open>find_anagrams self w\<close> has exactly the letters of \<open>w\<close>, each as
  often as \<open>w\<close> has it, and a rearrangement \<open>w'\<close> of the letters of \<open>w\<close> has the same set
  of anagrams as \<open>w\<close>.
\<close>

theorem find_anagrams_multiset:
  "(\<forall>a \<in> find_anagrams self w. mset a = mset w)
   \<and> (mset w' = mset w \<longrightarrow> find_anagrams self w' = find_anagrams self w)"
  by (simp add: find_anagrams_eq)

theorem find_anagrams_multiset_witness:
  "''POTS'' \<in> find_anagrams stop_dictionary ''STOP''
   \<and> mset ''POTS'' = mset ''STOP''
   \<and> find_anagrams stop_dictionary ''POTS'' = find_anagrams stop_dictionary ''STOP''"
proof -
  have e: "''POTS'' \<in> find_anagrams stop_dictionary ''STOP''" by code_simp
  have m: "mset ''POTS'' = mset ''STOP''" by simp
  from find_anagrams_multiset [of stop_dictionary "''STOP''" "''POTS''"] e m
  show ?thesis by blast
qed

text \<open>
  C10. \<open>is_word\<close> and \<open>get_def\<close> give the same answer for a string and for its
  uppercased form, as both uppercase their argument before they consult the trie;
  \<open>search\<close> itself tells the cases apart.
\<close>

theorem is_word_get_def_case_insensitive:
  "is_word self s = is_word self (upper s)
   \<and> get_def self s = get_def self (upper s)
   \<and> (\<exists>t w. search t w \<noteq> search t (upper w))"
proof -
  have "search (insert empty_node ''A'' []) ''a''
        \<noteq> search (insert empty_node ''A'' []) (upper ''a'')"
    by code_simp
  then have "\<exists>t w. search t w \<noteq> search t (upper w)" by blast
  then show ?thesis by (simp add: is_word_def get_def_def upper_idem)
qed

section \<open>The grid under a placement attempt\<close>

text \<open>
  Two grids have the same shape when they have the same number of rows and their rows
  have the same lengths, one by one.
\<close>

definition same_shape :: "'a list list \<Rightarrow> 'a list list \<Rightarrow> bool" where
  "same_shape g h = (map length g = map length h)"

lemma same_shape_refl: "same_shape g g" by (simp add: same_shape_def)

lemma same_shape_length: "same_shape g h \<Longrightarrow> length g = length h"
  unfolding same_shape_def by (rule map_eq_imp_length_eq)

lemma same_shape_nth: "same_shape g h \<Longrightarrow> i < length g \<Longrightarrow> length (g ! i) = length (h ! i)"
  unfolding same_shape_def by (metis length_map nth_map)

lemma same_shape_update:
  "i < length g \<Longrightarrow> same_shape g (g[i := (g ! i)[j := v]])"
proof -
  assume i: "i < length g"
  have "map length (g[i := (g ! i)[j := v]]) = (map length g)[i := map length g ! i]"
    using i by (simp add: map_update)
  then show ?thesis by (simp add: same_shape_def del: nth_map)
qed

lemma same_shape_trans: "same_shape g h \<Longrightarrow> same_shape h k \<Longrightarrow> same_shape g k"
  by (simp add: same_shape_def)

lemma grid_eqI:
  assumes "same_shape g h"
    and "\<And>i j. i < length g \<Longrightarrow> j < length (g ! i) \<Longrightarrow> g ! i ! j = h ! i ! j"
  shows "g = h"
proof (rule nth_equalityI)
  show "length g = length h" using assms(1) by (rule same_shape_length)
next
  fix i assume i: "i < length g"
  show "g ! i = h ! i"
  proof (rule nth_equalityI)
    show "length (g ! i) = length (h ! i)" using assms(1) i by (rule same_shape_nth)
  next
    fix j assume "j < length (g ! i)"
    with i show "g ! i ! j = h ! i ! j" by (rule assms(2))
  qed
qed

lemma py_index_nonneg:
  "0 \<le> i \<Longrightarrow> py_index xs i = (if nat i < length xs then Inr (xs ! nat i) else Inl IndexError)"
  by (auto simp: py_index_def Let_def)

lemma py_set_nonneg:
  "0 \<le> i \<Longrightarrow> py_set xs i v = (if nat i < length xs then Inr (xs[nat i := v]) else Inl IndexError)"
  by (auto simp: py_set_def Let_def)

lemma py_index2_nonneg:
  "0 \<le> r \<Longrightarrow> 0 \<le> c \<Longrightarrow>
   py_index2 g r c = (if nat r < length g \<and> nat c < length (g ! nat r) then Inr (g ! nat r ! nat c) else Inl IndexError)"
  by (simp add: py_index2_def py_index_nonneg)

lemma py_set2_nonneg:
  "0 \<le> r \<Longrightarrow> 0 \<le> c \<Longrightarrow>
   py_set2 g r c v = (if nat r < length g \<and> nat c < length (g ! nat r) then Inr (g[nat r := (g ! nat r)[nat c := v]]) else Inl IndexError)"
  by (simp add: py_set2_def py_index_nonneg py_set_nonneg)

lemma is_valid_coord_nonneg: "is_valid_coord self r c \<Longrightarrow> 0 \<le> r \<and> 0 \<le> c"
  by (auto simp: is_valid_coord_def split: list.splits)

text \<open>
  The invariant of the loop of \<open>set_word\<close>, with \<open>g0\<close> the grid before the attempt:
  the grid keeps its shape, every coordinate in \<open>last_play\<close> lies in the grid and was
  empty in \<open>g0\<close>, and every other cell is as in \<open>g0\<close>.
\<close>

definition undoable :: "char option list list \<Rightarrow> Board \<Rightarrow> bool" where
  "undoable g0 self =
     (same_shape g0 (board self)
      \<and> (\<forall>(r, c) \<in> set (last_play self).
            0 \<le> r \<and> 0 \<le> c \<and> nat r < length g0 \<and> nat c < length (g0 ! nat r)
            \<and> g0 ! nat r ! nat c = None)
      \<and> (\<forall>i j. i < length g0 \<longrightarrow> j < length (g0 ! i) \<longrightarrow> (int i, int j) \<notin> set (last_play self)
            \<longrightarrow> board self ! i ! j = g0 ! i ! j))"

lemma undoable_start: "undoable (board self) (self\<lparr>last_play := []\<rparr>)"
  by (simp add: undoable_def same_shape_refl)

lemma undoable_place:
  assumes u: "undoable g0 self" and r: "0 \<le> r" and c: "0 \<le> c"
    and ix: "py_index2 (board self) r c = Inr None"
  shows "py_set2 (board self) r c (Some letter)
           = Inr ((board self)[nat r := (board self ! nat r)[nat c := Some letter]])"
    and "undoable g0 (self\<lparr>board := (board self)[nat r := (board self ! nat r)[nat c := Some letter]],
                            last_play := last_play self @ [(r, c)]\<rparr>)"
proof -
  from ix r c have rng: "nat r < length (board self)" "nat c < length (board self ! nat r)"
    and cell: "board self ! nat r ! nat c = None"
    by (auto simp: py_index2_nonneg split: if_splits)
  from rng r c show "py_set2 (board self) r c (Some letter)
           = Inr ((board self)[nat r := (board self ! nat r)[nat c := Some letter]])"
    by (simp add: py_set2_nonneg)
  from u have sh: "same_shape g0 (board self)" by (simp add: undoable_def)
  from sh rng have rng0: "nat r < length g0" "nat c < length (g0 ! nat r)"
    by (simp_all add: same_shape_length same_shape_nth)
  have g0cell: "g0 ! nat r ! nat c = None"
  proof (cases "(r, c) \<in> set (last_play self)")
    case True
    with u show ?thesis by (auto simp: undoable_def)
  next
    case False
    with u rng0 r c have "board self ! nat r ! nat c = g0 ! nat r ! nat c"
      by (simp add: undoable_def)
    with cell show ?thesis by simp
  qed
  have sh': "same_shape g0 ((board self)[nat r := (board self ! nat r)[nat c := Some letter]])"
    using sh same_shape_update [OF rng(1)] by (rule same_shape_trans)
  have other: "((board self)[nat r := (board self ! nat r)[nat c := Some letter]]) ! i ! j = g0 ! i ! j"
    if "i < length g0" "j < length (g0 ! i)" "(int i, int j) \<notin> set (last_play self)" "(int i, int j) \<noteq> (r, c)"
    for i j
  proof -
    from u that have "board self ! i ! j = g0 ! i ! j" by (simp add: undoable_def)
    moreover from that(4) r c have "i \<noteq> nat r \<or> j \<noteq> nat c" by auto
    ultimately show ?thesis using rng
      by (cases "i = nat r") (auto simp: nth_list_update)
  qed
  show "undoable g0 (self\<lparr>board := (board self)[nat r := (board self ! nat r)[nat c := Some letter]],
                            last_play := last_play self @ [(r, c)]\<rparr>)"
    unfolding undoable_def using sh' u r c rng0 g0cell other
    by (auto simp: undoable_def)
qed


lemma v_self_advance [simp]: "v_self (advance dir st) = v_self st"
  by (simp add: advance_def)

lemma place_tile_self:
  assumes "place_tile dir letter st = Inr st'"
    and "py_set2 (board (v_self st)) (v_row st) (v_col st) (Some letter) = Inr grid"
  shows "v_self st' = (v_self st)\<lparr>board := grid,
           last_play := last_play (v_self st) @ [(v_row st, v_col st)]\<rparr>"
  using assms unfolding place_tile_def Let_def
  by (auto split: sum.splits if_splits)

lemma place_tile_undoable:
  assumes p: "place_tile dir letter st = Inr st'"
    and u: "undoable g0 (v_self st)"
    and v: "is_valid_coord (v_self st) (v_row st) (v_col st)"
    and ix: "py_index2 (board (v_self st)) (v_row st) (v_col st) = Inr None"
  shows "undoable g0 (v_self st')"
proof -
  from v have rc: "0 \<le> v_row st" "0 \<le> v_col st" by (auto dest: is_valid_coord_nonneg)
  from place_tile_self [OF p undoable_place(1) [OF u rc ix]] undoable_place(2) [OF u rc ix]
  show ?thesis by simp
qed

lemma set_letter_undoable:
  assumes s: "set_letter is_first_play cr cc dir letter st = Inr st'"
    and u: "undoable g0 (v_self st)"
  shows "undoable g0 (v_self st')"
proof (cases "is_valid_coord (v_self st) (v_row st) (v_col st)")
  case False
  with s u show ?thesis by (auto simp: set_letter_def Let_def)
next
  case True
  show ?thesis
  proof (cases "py_index2 (board (v_self st)) (v_row st) (v_col st)")
    case (Inl e)
    with s True show ?thesis
      by (auto simp: set_letter_def Let_def split: sum.splits if_splits)
  next
    case (Inr tile)
    show ?thesis
    proof (cases tile)
      case None
      with s True Inr obtain st2 where p: "place_tile dir letter st2 = Inr st'"
        and e: "v_self st2 = v_self st" "v_row st2 = v_row st" "v_col st2 = v_col st"
        by (auto simp: set_letter_def Let_def split: sum.splits if_splits)
      from place_tile_undoable [OF p] e u True Inr None show ?thesis by simp
    next
      case (Some t)
      with s True Inr u show ?thesis
        by (auto simp: set_letter_def Let_def split: sum.splits if_splits)
    qed
  qed
qed

lemma set_word_loop_undoable:
  "set_word_loop is_first_play cr cc dir word st = Inr st' \<Longrightarrow> undoable g0 (v_self st)
   \<Longrightarrow> undoable g0 (v_self st')"
proof (induction word arbitrary: st)
  case Nil
  then show ?case by simp
next
  case (Cons letter word)
  then show ?case by (auto split: sum.splits dest: set_letter_undoable)
qed

lemma undo_play_loop_cells:
  assumes "\<forall>(r, c) \<in> set lp. 0 \<le> r \<and> 0 \<le> c \<and> nat r < length (board self)
             \<and> nat c < length (board self ! nat r)"
  shows "\<exists>g. undo_play_loop self lp = Inr (self\<lparr>board := g\<rparr>) \<and> same_shape (board self) g
           \<and> (\<forall>i j. i < length g \<longrightarrow> j < length (g ! i) \<longrightarrow>
                 g ! i ! j = (if (int i, int j) \<in> set lp then None else board self ! i ! j))"
  using assms
proof (induction lp arbitrary: self)
  case Nil
  have "self\<lparr>board := board self\<rparr> = self" by simp
  then show ?case by (metis undo_play_loop.simps(1) same_shape_refl empty_iff list.set(1))
next
  case (Cons rc lp)
  obtain r c where rc: "rc = (r, c)" by (cases rc)
  let ?g1 = "(board self)[nat r := (board self ! nat r)[nat c := None]]"
  let ?s1 = "self\<lparr>board := ?g1\<rparr>"
  from Cons.prems rc have b: "0 \<le> r" "0 \<le> c" "nat r < length (board self)"
    "nat c < length (board self ! nat r)" by auto
  have sh1: "same_shape (board self) ?g1" using b(3) by (rule same_shape_update)
  have "\<forall>(r, c) \<in> set lp. 0 \<le> r \<and> 0 \<le> c \<and> nat r < length (board ?s1)
             \<and> nat c < length (board ?s1 ! nat r)"
    using Cons.prems sh1 by (auto simp: same_shape_length [symmetric] same_shape_nth [symmetric])
  from Cons.IH [OF this] obtain g where g: "undo_play_loop ?s1 lp = Inr (?s1\<lparr>board := g\<rparr>)"
    "same_shape ?g1 g"
    "\<And>i j. i < length g \<Longrightarrow> j < length (g ! i) \<Longrightarrow>
        g ! i ! j = (if (int i, int j) \<in> set lp then None else ?g1 ! i ! j)"
    by auto
  have 1: "undo_play_loop self (rc # lp) = Inr (self\<lparr>board := g\<rparr>)"
    using g(1) b rc by (simp add: py_set2_nonneg)
  have 2: "same_shape (board self) g" using sh1 g(2) by (rule same_shape_trans)
  have 3: "g ! i ! j = (if (int i, int j) \<in> set (rc # lp) then None else board self ! i ! j)"
    if "i < length g" "j < length (g ! i)" for i j
  proof (cases "(int i, int j) = (r, c)")
    case True
    then have ij: "i = nat r" "j = nat c" by auto
    with g(3) [OF that] b rc show ?thesis by simp
  next
    case False
    then have "i \<noteq> nat r \<or> j \<noteq> nat c" using b by auto
    then have "?g1 ! i ! j = board self ! i ! j"
      using b(3) by (cases "i = nat r") (auto simp: nth_list_update)
    with g(3) [OF that] False rc show ?thesis by auto
  qed
  from 1 2 3 show ?case by blast
qed

lemma undo_play_undoable:
  assumes u: "undoable g0 self"
  shows "undo_play self = Inr (self\<lparr>board := g0, last_play := []\<rparr>)"
proof -
  from u have sh: "same_shape g0 (board self)" by (simp add: undoable_def)
  from u sh have "\<forall>(r, c) \<in> set (last_play self). 0 \<le> r \<and> 0 \<le> c \<and> nat r < length (board self)
             \<and> nat c < length (board self ! nat r)"
    by (auto simp: undoable_def same_shape_length [symmetric] same_shape_nth [symmetric])
  from undo_play_loop_cells [OF this] obtain g where
    g: "undo_play_loop self (last_play self) = Inr (self\<lparr>board := g\<rparr>)" "same_shape (board self) g"
       "\<And>i j. i < length g \<Longrightarrow> j < length (g ! i) \<Longrightarrow>
          g ! i ! j = (if (int i, int j) \<in> set (last_play self) then None else board self ! i ! j)"
    by auto
  have sh0: "same_shape g0 g" using sh g(2) by (rule same_shape_trans)
  have "g0 = g"
  proof (rule grid_eqI [OF sh0])
    fix i j assume ij: "i < length g0" "j < length (g0 ! i)"
    with sh0 have ij': "i < length g" "j < length (g ! i)"
      by (simp_all add: same_shape_length [symmetric] same_shape_nth [symmetric])
    show "g0 ! i ! j = g ! i ! j"
    proof (cases "(int i, int j) \<in> set (last_play self)")
      case True
      with u have "g0 ! i ! j = None" by (auto simp: undoable_def)
      with g(3) [OF ij'] True show ?thesis by simp
    next
      case False
      with u ij have "board self ! i ! j = g0 ! i ! j" by (simp add: undoable_def)
      with g(3) [OF ij'] False show ?thesis by simp
    qed
  qed
  with g(1) show ?thesis by (simp add: undo_play_def)
qed

lemma set_word_undoable:
  assumes "set_word self word r c dir = Inr (res, self1)"
  shows "undoable (board self) self1"
proof -
  from assms obtain st n where
    l: "set_word_loop (is_empty (self\<lparr>last_play := []\<rparr>))
          (int (length (board self)) div 2) (int n div 2) dir (upper word)
          \<lparr>v_self = self\<lparr>last_play := []\<rparr>, v_row = r, v_col = c, v_valid_play = True,
           v_play_through_center = False, v_touching_word = False, v_score = 0,
           v_cross_scores = 0, v_total_multiplier = 1\<rparr> = Inr st"
    and s: "self1 = v_self st"
    by (auto simp: set_word_def Let_def split: sum.splits)
  from set_word_loop_undoable [OF l, of "board self"] undoable_start [of self] s
  show ?thesis by simp
qed

lemma place_tile_frame:
  "place_tile dir letter st = Inr st' \<Longrightarrow>
   multipliers (v_self st') = multipliers (v_self st)
   \<and> letter_scoring (v_self st') = letter_scoring (v_self st)"
  unfolding place_tile_def Let_def by (auto split: sum.splits if_splits)

lemma set_letter_frame:
  "set_letter is_first_play cr cc dir letter st = Inr st' \<Longrightarrow>
   multipliers (v_self st') = multipliers (v_self st)
   \<and> letter_scoring (v_self st') = letter_scoring (v_self st)"
  unfolding set_letter_def Let_def
  by (auto split: sum.splits if_splits option.splits dest: place_tile_frame)

lemma set_word_loop_frame:
  "set_word_loop is_first_play cr cc dir word st = Inr st' \<Longrightarrow>
   multipliers (v_self st') = multipliers (v_self st)
   \<and> letter_scoring (v_self st') = letter_scoring (v_self st)"
proof (induction word arbitrary: st)
  case Nil
  then show ?case by simp
next
  case (Cons letter word)
  from Cons.prems obtain st1 where 1: "set_letter is_first_play cr cc dir letter st = Inr st1"
    and 2: "set_word_loop is_first_play cr cc dir word st1 = Inr st'"
    by (auto split: sum.splits)
  from set_letter_frame [OF 1] Cons.IH [OF 2] show ?case by simp
qed

lemma set_word_frame:
  assumes "set_word self word r c dir = Inr (res, self1)"
  shows "multipliers self1 = multipliers self \<and> letter_scoring self1 = letter_scoring self"
proof -
  from assms obtain st n where
    l: "set_word_loop (is_empty (self\<lparr>last_play := []\<rparr>))
          (int (length (board self)) div 2) (int n div 2) dir (upper word)
          \<lparr>v_self = self\<lparr>last_play := []\<rparr>, v_row = r, v_col = c, v_valid_play = True,
           v_play_through_center = False, v_touching_word = False, v_score = 0,
           v_cross_scores = 0, v_total_multiplier = 1\<rparr> = Inr st"
    and s: "self1 = v_self st"
    by (auto simp: set_word_def Let_def split: sum.splits)
  from set_word_loop_frame [OF l] s show ?thesis by simp
qed


section \<open>The legality of a placement\<close>

text \<open>
  The legality of an attempt in the words of the specification, on the board before the
  attempt. The letters of the word go to the cells \<open>cell_of r c dir i\<close>. The word fits
  when every letter is on the grid and its cell is empty or holds that letter. It goes
  through the centre when a letter is on the cell in row \<open>R div 2\<close> and column
  \<open>C div 2\<close>. It touches when a letter is on the grid and its cell, or one of the four
  cells next to it, holds a tile. An attempt is legal when the word fits and goes through
  the centre (on an empty board) or touches (on any other).
\<close>

definition cell_of :: "int \<Rightarrow> int \<Rightarrow> direction \<Rightarrow> nat \<Rightarrow> int \<times> int" where
  "cell_of r c dir i = (if dir = DOWN then (r + int i, c) else (r, c + int i))"

definition on_grid :: "Board \<Rightarrow> int \<times> int \<Rightarrow> bool" where
  "on_grid self p = is_valid_coord self (fst p) (snd p)"

definition tile_at :: "Board \<Rightarrow> int \<times> int \<Rightarrow> char option" where
  "tile_at self p =
     (if on_grid self p
      then (case py_index2 (board self) (fst p) (snd p) of Inr t \<Rightarrow> t | Inl e \<Rightarrow> None)
      else None)"

definition around :: "int \<times> int \<Rightarrow> (int \<times> int) list" where
  "around p = [p, (fst p - 1, snd p), (fst p + 1, snd p), (fst p, snd p - 1), (fst p, snd p + 1)]"

definition fits :: "Board \<Rightarrow> string \<Rightarrow> int \<Rightarrow> int \<Rightarrow> direction \<Rightarrow> bool" where
  "fits self word r c dir =
     list_all (\<lambda>i. on_grid self (cell_of r c dir i)
                 \<and> (tile_at self (cell_of r c dir i) = None
                    \<or> tile_at self (cell_of r c dir i) = Some (word ! i)))
       [0 ..< length word]"

definition center_cell :: "Board \<Rightarrow> int \<times> int" where
  "center_cell self = (int (length (board self)) div 2, int (length (hd (board self))) div 2)"

definition through_center :: "Board \<Rightarrow> string \<Rightarrow> int \<Rightarrow> int \<Rightarrow> direction \<Rightarrow> bool" where
  "through_center self word r c dir =
     list_ex (\<lambda>i. on_grid self (cell_of r c dir i) \<and> cell_of r c dir i = center_cell self)
       [0 ..< length word]"

definition touches_at :: "Board \<Rightarrow> int \<times> int \<Rightarrow> bool" where
  "touches_at self p = (on_grid self p \<and> list_ex (\<lambda>q. tile_at self q \<noteq> None) (around p))"

definition touches :: "Board \<Rightarrow> string \<Rightarrow> int \<Rightarrow> int \<Rightarrow> direction \<Rightarrow> bool" where
  "touches self word r c dir = list_ex (\<lambda>i. touches_at self (cell_of r c dir i)) [0 ..< length word]"

definition legal :: "Board \<Rightarrow> string \<Rightarrow> int \<Rightarrow> int \<Rightarrow> direction \<Rightarrow> bool" where
  "legal self word r c dir =
     (fits self word r c dir
      \<and> (if is_empty self then through_center self word r c dir else touches self word r c dir))"

lemma fits_Nil: "fits self [] r c dir" by (simp add: fits_def)
lemma through_center_Nil: "\<not> through_center self [] r c dir" by (simp add: through_center_def)
lemma touches_Nil: "\<not> touches self [] r c dir" by (simp add: touches_def)

lemma fits_snoc:
  "fits self (pre @ [l]) r c dir =
     (fits self pre r c dir \<and> on_grid self (cell_of r c dir (length pre))
      \<and> (tile_at self (cell_of r c dir (length pre)) = None
         \<or> tile_at self (cell_of r c dir (length pre)) = Some l))"
  by (auto simp: fits_def list_all_iff nth_append)

lemma through_center_snoc:
  "through_center self (pre @ [l]) r c dir =
     (through_center self pre r c dir
      \<or> (on_grid self (cell_of r c dir (length pre))
          \<and> cell_of r c dir (length pre) = center_cell self))"
  by (auto simp: through_center_def list_ex_iff)

lemma touches_snoc:
  "touches self (pre @ [l]) r c dir =
     (touches self pre r c dir \<or> touches_at self (cell_of r c dir (length pre)))"
  by (auto simp: touches_def list_ex_iff)

lemma touches_index: "i < length pre \<Longrightarrow> touches_at self (cell_of r c dir i) \<Longrightarrow> touches self pre r c dir"
  by (auto simp: touches_def list_ex_iff)

lemma cell_of_inj: "cell_of r c dir i = cell_of r c dir j \<Longrightarrow> i = j"
  by (auto simp: cell_of_def split: if_splits)

lemma is_valid_coord_same_shape:
  "same_shape (board a) (board b) \<Longrightarrow> is_valid_coord a r c = is_valid_coord b r c"
  by (auto simp: is_valid_coord_def same_shape_def split: list.splits dest: map_eq_imp_length_eq)

lemma on_grid_same_shape: "same_shape (board a) (board b) \<Longrightarrow> on_grid a p = on_grid b p"
  by (simp add: on_grid_def is_valid_coord_same_shape)

lemma read_initial:
  assumes u: "undoable (board self) S" and v: "on_grid self p" and n: "p \<notin> set (last_play S)"
  shows "py_index2 (board S) (fst p) (snd p) = py_index2 (board self) (fst p) (snd p)"
proof -
  obtain r c where p: "p = (r, c)" by (cases p)
  from v p have rc: "0 \<le> r" "0 \<le> c" by (auto simp: on_grid_def dest: is_valid_coord_nonneg)
  from u have sh: "same_shape (board self) (board S)" by (simp add: undoable_def)
  show ?thesis
  proof (cases "nat r < length (board self) \<and> nat c < length (board self ! nat r)")
    case True
    with sh have "nat r < length (board S) \<and> nat c < length (board S ! nat r)"
      by (simp add: same_shape_length [symmetric] same_shape_nth [symmetric])
    moreover from u True n p rc have "board S ! nat r ! nat c = board self ! nat r ! nat c"
      by (simp add: undoable_def)
    ultimately show ?thesis using True rc p by (simp add: py_index2_nonneg)
  next
    case False
    with sh have "\<not> (nat r < length (board S) \<and> nat c < length (board S ! nat r))"
      by (metis same_shape_length same_shape_nth)
    with False rc p show ?thesis by (simp add: py_index2_nonneg)
  qed
qed

lemma valid_and_occupied_initial:
  assumes u: "undoable (board self) S" and n: "p \<notin> set (last_play S)"
    and b: "valid_and_occupied S (fst p) (snd p) = Inr b"
  shows "b = (tile_at self p \<noteq> None)"
proof (cases "on_grid self p")
  case False
  moreover from u have "same_shape (board self) (board S)" by (simp add: undoable_def)
  ultimately have "\<not> is_valid_coord S (fst p) (snd p)"
    by (simp add: on_grid_def is_valid_coord_same_shape)
  with b False show ?thesis by (simp add: valid_and_occupied_def tile_at_def)
next
  case True
  moreover from u have "same_shape (board self) (board S)" by (simp add: undoable_def)
  ultimately have v: "is_valid_coord S (fst p) (snd p)"
    by (simp add: on_grid_def is_valid_coord_same_shape)
  from read_initial [OF u True n] b v True show ?thesis
    by (auto simp: valid_and_occupied_def occupied_def tile_at_def split: sum.splits)
qed


text \<open>The four neighbours of a cell, named after the direction of the word.\<close>

definition side1 :: "direction \<Rightarrow> int \<times> int \<Rightarrow> int \<times> int" where
  "side1 dir p = (if dir = DOWN then (fst p, snd p - 1) else (fst p - 1, snd p))"

definition side2 :: "direction \<Rightarrow> int \<times> int \<Rightarrow> int \<times> int" where
  "side2 dir p = (if dir = DOWN then (fst p, snd p + 1) else (fst p + 1, snd p))"

definition behind :: "direction \<Rightarrow> int \<times> int \<Rightarrow> int \<times> int" where
  "behind dir p = (if dir = DOWN then (fst p - 1, snd p) else (fst p, snd p - 1))"

definition ahead :: "direction \<Rightarrow> int \<times> int \<Rightarrow> int \<times> int" where
  "ahead dir p = (if dir = DOWN then (fst p + 1, snd p) else (fst p, snd p + 1))"

definition vo :: "Board \<Rightarrow> int \<times> int \<Rightarrow> py_error + bool" where
  "vo self p = valid_and_occupied self (fst p) (snd p)"

lemma set_around: "set (around p) = {p, side1 dir p, side2 dir p, behind dir p, ahead dir p}"
  by (cases dir) (auto simp: around_def side1_def side2_def behind_def ahead_def)

lemma is_touching_word_vo:
  "is_touching_word self (fst p) (snd p) dir =
     (case occupied self (fst p) (snd p) of
        Inl e \<Rightarrow> Inl e
      | Inr True \<Rightarrow> Inr True
      | Inr False \<Rightarrow>
     (case or_else (vo self (side1 dir p)) (vo self (side2 dir p)) of
        Inl e \<Rightarrow> Inl e
      | Inr True \<Rightarrow> Inr True
      | Inr False \<Rightarrow>
     (case vo self (behind dir p) of
        Inl e \<Rightarrow> Inl e
      | Inr tile_before \<Rightarrow>
          if tile_before \<and> last_play self = [] then Inr True else vo self (ahead dir p))))"
  unfolding is_touching_word_def vo_def side1_def side2_def behind_def ahead_def
  by (cases dir) (simp_all cong: sum.case_cong bool.case_cong if_cong)

lemma is_touching_word_True:
  assumes "is_touching_word self (fst p) (snd p) dir = Inr True" and "on_grid self p"
  shows "vo self p = Inr True \<or> vo self (side1 dir p) = Inr True \<or> vo self (side2 dir p) = Inr True
         \<or> (vo self (behind dir p) = Inr True \<and> last_play self = [])
         \<or> vo self (ahead dir p) = Inr True"
  using assms unfolding is_touching_word_vo
  by (auto simp: or_else_def vo_def valid_and_occupied_def on_grid_def
      split: sum.splits bool.splits if_splits)

lemma is_touching_word_False:
  assumes "is_touching_word self (fst p) (snd p) dir = Inr False" and "on_grid self p"
  shows "vo self p = Inr False \<and> vo self (side1 dir p) = Inr False \<and> vo self (side2 dir p) = Inr False
         \<and> (vo self (behind dir p) = Inr False
            \<or> (vo self (behind dir p) = Inr True \<and> last_play self \<noteq> []))
         \<and> vo self (ahead dir p) = Inr False"
  using assms unfolding is_touching_word_vo
  by (auto simp: or_else_def vo_def valid_and_occupied_def on_grid_def
      split: sum.splits bool.splits if_splits)


lemma tile_at_last_play:
  assumes "undoable (board self) S" and "q \<in> set (last_play S)"
  shows "tile_at self q = None"
proof -
  obtain r c where q: "q = (r, c)" by (cases q)
  from assms q have "0 \<le> r" "0 \<le> c" "nat r < length (board self)"
    "nat c < length (board self ! nat r)" "board self ! nat r ! nat c = None"
    by (auto simp: undoable_def)
  with q show ?thesis by (simp add: tile_at_def py_index2_nonneg)
qed

lemma vo_False_tile:
  assumes u: "undoable (board self) S" and f: "vo S q = Inr False"
  shows "tile_at self q = None"
proof (cases "q \<in> set (last_play S)")
  case True
  with u show ?thesis by (rule tile_at_last_play)
next
  case False
  from f have "valid_and_occupied S (fst q) (snd q) = Inr False" by (simp add: vo_def)
  from valid_and_occupied_initial [OF u False this] show ?thesis by simp
qed

lemma vo_True_tile:
  assumes u: "undoable (board self) S" and f: "vo S q = Inr True" and n: "q \<notin> set (last_play S)"
  shows "tile_at self q \<noteq> None"
proof -
  from f have "valid_and_occupied S (fst q) (snd q) = Inr True" by (simp add: vo_def)
  from valid_and_occupied_initial [OF u n this] show ?thesis by simp
qed

lemma tile_at_on_grid: "tile_at self q \<noteq> None \<Longrightarrow> on_grid self q"
  by (auto simp: tile_at_def split: if_splits)

lemma touches_atI:
  "on_grid self p \<Longrightarrow> q \<in> set (around p) \<Longrightarrow> tile_at self q \<noteq> None \<Longrightarrow> touches_at self p"
  by (auto simp: touches_at_def list_ex_iff)

lemma side1_not_cell: "side1 dir (cell_of r c dir k) \<noteq> cell_of r c dir i"
  by (auto simp: side1_def cell_of_def)

lemma side2_not_cell: "side2 dir (cell_of r c dir k) \<noteq> cell_of r c dir i"
  by (auto simp: side2_def cell_of_def)

lemma ahead_cell: "ahead dir (cell_of r c dir k) = cell_of r c dir (Suc k)"
  by (auto simp: ahead_def cell_of_def)

lemma behind_cell: "behind dir (cell_of r c dir (Suc k)) = cell_of r c dir k"
  by (auto simp: behind_def cell_of_def)

lemma is_touching_word_correct:
  assumes u: "undoable (board self) S"
    and lp: "set (last_play S) \<subseteq> cell_of r c dir ` {..<length pre}"
    and v: "on_grid self (cell_of r c dir (length pre))"
    and nt: "\<not> touches self pre r c dir"
    and t: "is_touching_word S (fst (cell_of r c dir (length pre)))
              (snd (cell_of r c dir (length pre))) dir = Inr t"
  shows "t = touches_at self (cell_of r c dir (length pre))"
proof -
  let ?k = "length pre"
  let ?p = "cell_of r c dir ?k"
  from u have sh: "same_shape (board self) (board S)" by (simp add: undoable_def)
  from v sh have vS: "on_grid S ?p" by (simp add: on_grid_same_shape)
  from lp have n0: "?p \<notin> set (last_play S)" by (auto dest: cell_of_inj)
  from lp have n1: "side1 dir ?p \<notin> set (last_play S)" using side1_not_cell by fastforce
  from lp have n2: "side2 dir ?p \<notin> set (last_play S)" using side2_not_cell by fastforce
  have n3: "ahead dir ?p \<notin> set (last_play S)"
  proof
    assume "ahead dir ?p \<in> set (last_play S)"
    with lp obtain i where "i < ?k" "cell_of r c dir (Suc ?k) = cell_of r c dir i"
      by (auto simp: ahead_cell)
    then show False by (auto dest: cell_of_inj)
  qed
  note ar = set_around [of ?p dir]
  have mem: "?p \<in> set (around ?p)" "side1 dir ?p \<in> set (around ?p)"
    "side2 dir ?p \<in> set (around ?p)" "behind dir ?p \<in> set (around ?p)"
    "ahead dir ?p \<in> set (around ?p)"
    unfolding ar by blast+
  show ?thesis
  proof (cases t)
    case True
    with t vS have "vo S ?p = Inr True \<or> vo S (side1 dir ?p) = Inr True
        \<or> vo S (side2 dir ?p) = Inr True
        \<or> (vo S (behind dir ?p) = Inr True \<and> last_play S = [])
        \<or> vo S (ahead dir ?p) = Inr True"
      by (simp add: is_touching_word_True)
    moreover have "last_play S = [] \<Longrightarrow> behind dir ?p \<notin> set (last_play S)" by simp
    ultimately have "\<exists>q. q \<in> set (around ?p) \<and> vo S q = Inr True \<and> q \<notin> set (last_play S)"
      using n0 n1 n2 n3 mem by blast
    then obtain q where q: "q \<in> set (around ?p)" "vo S q = Inr True" "q \<notin> set (last_play S)"
      by blast
    from vo_True_tile [OF u q(2) q(3)] have "tile_at self q \<noteq> None" .
    with v q(1) have "touches_at self ?p" by (rule touches_atI)
    with True show ?thesis by simp
  next
    case False
    with t vS have f: "vo S ?p = Inr False" "vo S (side1 dir ?p) = Inr False"
      "vo S (side2 dir ?p) = Inr False" "vo S (ahead dir ?p) = Inr False"
      and b: "vo S (behind dir ?p) = Inr False
              \<or> (vo S (behind dir ?p) = Inr True \<and> last_play S \<noteq> [])"
      using is_touching_word_False [of S ?p dir] by simp_all
    have "tile_at self (behind dir ?p) = None"
    proof (rule ccontr)
      assume a: "tile_at self (behind dir ?p) \<noteq> None"
      with b u have "last_play S \<noteq> []" by (auto dest: vo_False_tile)
      with lp obtain k' where k: "?k = Suc k'" by (cases ?k) auto
      then have bc: "behind dir ?p = cell_of r c dir k'" by (simp add: behind_cell)
      have m: "cell_of r c dir k' \<in> set (around (cell_of r c dir k'))"
        by (simp add: around_def)
      from a bc have a': "tile_at self (cell_of r c dir k') \<noteq> None" by simp
      from a' have "on_grid self (cell_of r c dir k')" by (rule tile_at_on_grid)
      from this m a' have ta: "touches_at self (cell_of r c dir k')" by (rule touches_atI)
      from k have "k' < length pre" by simp
      from this ta have "touches self pre r c dir" by (rule touches_index)
      with nt show False ..
    qed
    then have tb: "tile_at self (behind dir ?p) = None" .
    have tf: "tile_at self ?p = None" "tile_at self (side1 dir ?p) = None"
      "tile_at self (side2 dir ?p) = None" "tile_at self (ahead dir ?p) = None"
      by (rule vo_False_tile [OF u f(1)], rule vo_False_tile [OF u f(2)],
          rule vo_False_tile [OF u f(3)], rule vo_False_tile [OF u f(4)])
    have none: "tile_at self q = None" if "q \<in> set (around ?p)" for q
    proof -
      from that have "q = ?p \<or> q = side1 dir ?p \<or> q = side2 dir ?p \<or> q = behind dir ?p
          \<or> q = ahead dir ?p"
        unfolding ar by simp
      then show ?thesis using tf tb by (elim disjE) simp_all
    qed
    then have "\<not> touches_at self ?p" by (simp add: touches_at_def list_ex_iff)
    with False show ?thesis by simp
  qed
qed


lemma len_first_row_hd: "len_first_row m = Inr n \<Longrightarrow> n = length (hd m)"
  by (cases m) (auto simp: len_first_row_def)

lemma advance_cell:
  "(v_row st, v_col st) = cell_of r c dir k \<Longrightarrow>
   (v_row (advance dir st), v_col (advance dir st)) = cell_of r c dir (Suc k)"
  by (cases dir) (auto simp: advance_def cell_of_def)

lemma advance_flags [simp]:
  "v_valid_play (advance dir st) = v_valid_play st"
  "v_play_through_center (advance dir st) = v_play_through_center st"
  "v_touching_word (advance dir st) = v_touching_word st"
  by (simp_all add: advance_def)

lemma place_tile_flags:
  assumes "place_tile dir letter st = Inr st'"
  shows "v_valid_play st' = v_valid_play st"
    and "v_play_through_center st' = v_play_through_center st"
    and "v_touching_word st' = v_touching_word st"
    and "(v_row st', v_col st') = (v_row (advance dir st), v_col (advance dir st))"
    and "last_play (v_self st') = last_play (v_self st) @ [(v_row st, v_col st)]"
  using assms unfolding place_tile_def Let_def
  by (auto split: sum.splits if_splits simp: advance_def)

text \<open>What one turn of the loop does to the flags, on a cell of the grid.\<close>

lemma set_letter_on_grid:
  assumes s: "set_letter is_first_play cr cc dir letter st = Inr st'"
    and v: "is_valid_coord (v_self st) (v_row st) (v_col st)"
  shows "\<exists>tile t. py_index2 (board (v_self st)) (v_row st) (v_col st) = Inr tile
       \<and> (if \<not> v_touching_word st \<and> \<not> is_first_play
           then is_touching_word (v_self st) (v_row st) (v_col st) dir = Inr t else \<not> t)
       \<and> v_valid_play st' = (v_valid_play st \<and> (tile = None \<or> tile = Some letter))
       \<and> v_play_through_center st'
           = (v_play_through_center st \<or> (is_first_play \<and> v_row st = cr \<and> v_col st = cc))
       \<and> v_touching_word st' = (v_touching_word st \<or> t)
       \<and> (v_row st', v_col st') = (v_row (advance dir st), v_col (advance dir st))
       \<and> last_play (v_self st')
           = (if tile = None then last_play (v_self st) @ [(v_row st, v_col st)]
              else last_play (v_self st))"
proof -
  let ?st1 = "if is_first_play \<and> v_row st = cr \<and> v_col st = cc
              then st\<lparr>v_play_through_center := True\<rparr> else st"
  obtain t where t: "(if \<not> v_touching_word ?st1 \<and> \<not> is_first_play
                     then is_touching_word (v_self st) (v_row st) (v_col st) dir
                     else Inr False) = Inr t"
    using s v unfolding set_letter_def Let_def by (auto split: sum.splits)
  let ?st2 = "if t then ?st1\<lparr>v_touching_word := True\<rparr> else ?st1"
  obtain tile where tile: "py_index2 (board (v_self st)) (v_row st) (v_col st) = Inr tile"
    using s v t unfolding set_letter_def Let_def by (auto split: sum.splits)
  have st2: "v_self ?st2 = v_self st" "v_row ?st2 = v_row st" "v_col ?st2 = v_col st"
    "v_valid_play ?st2 = v_valid_play st"
    "v_play_through_center ?st2
      = (v_play_through_center st \<or> (is_first_play \<and> v_row st = cr \<and> v_col st = cc))"
    "v_touching_word ?st2 = (v_touching_word st \<or> t)"
    by auto
  have tt: "if \<not> v_touching_word st \<and> \<not> is_first_play
           then is_touching_word (v_self st) (v_row st) (v_col st) dir = Inr t else \<not> t"
    using t by (auto split: if_splits)
  have rest: "v_valid_play st' = (v_valid_play ?st2 \<and> (tile = None \<or> tile = Some letter))
       \<and> v_play_through_center st' = v_play_through_center ?st2
       \<and> v_touching_word st' = v_touching_word ?st2
       \<and> (v_row st', v_col st') = (v_row (advance dir ?st2), v_col (advance dir ?st2))
       \<and> last_play (v_self st')
           = (if tile = None then last_play (v_self ?st2) @ [(v_row ?st2, v_col ?st2)]
              else last_play (v_self ?st2))"
  proof (cases tile)
    case None
    with s v t tile have "place_tile dir letter ?st2 = Inr st'"
      unfolding set_letter_def Let_def by (simp cong: if_cong)
    from place_tile_flags [OF this] None show ?thesis by simp
  next
    case (Some x)
    show ?thesis
    proof (cases "x = letter")
      case True
      with s v t tile Some obtain sc where
        "st' = advance dir (?st2\<lparr>v_score := v_score ?st2 + sc\<rparr>)"
        unfolding set_letter_def Let_def by (auto split: sum.splits cong: if_cong)
      with Some True show ?thesis by (simp add: advance_def)
    next
      case False
      with s v t tile Some have "st' = advance dir (?st2\<lparr>v_valid_play := False\<rparr>)"
        unfolding set_letter_def Let_def by (auto split: sum.splits cong: if_cong)
      with Some False show ?thesis by (simp add: advance_def)
    qed
  qed
  have adv: "(v_row (advance dir ?st2), v_col (advance dir ?st2))
             = (v_row (advance dir st), v_col (advance dir st))"
    by (simp add: advance_def)
  from tile tt rest st2 adv show ?thesis by (intro exI [of _ tile] exI [of _ t]) simp
qed

lemma set_letter_off_grid:
  assumes "\<not> is_valid_coord (v_self st) (v_row st) (v_col st)"
  shows "set_letter is_first_play cr cc dir letter st
           = Inr (advance dir (st\<lparr>v_valid_play := False\<rparr>))"
  using assms by (simp add: set_letter_def Let_def)


text \<open>
  The invariant of the loop of \<open>set_word\<close> after the letters \<open>pre\<close>: the flags say
  of \<open>pre\<close> what the claim says of the whole word, on the board before the attempt.
\<close>

definition play_inv ::
    "Board \<Rightarrow> bool \<Rightarrow> int \<Rightarrow> int \<Rightarrow> direction \<Rightarrow> string \<Rightarrow> play_vars \<Rightarrow> bool" where
  "play_inv self first r c dir pre st =
     ((v_row st, v_col st) = cell_of r c dir (length pre)
      \<and> undoable (board self) (v_self st)
      \<and> set (last_play (v_self st)) \<subseteq> cell_of r c dir ` {..<length pre}
      \<and> v_valid_play st = fits self pre r c dir
      \<and> v_play_through_center st = (first \<and> through_center self pre r c dir)
      \<and> v_touching_word st = (\<not> first \<and> touches self pre r c dir))"

lemma play_inv_step:
  assumes s: "set_letter first (fst (center_cell self)) (snd (center_cell self)) dir letter st
                = Inr st'"
    and i: "play_inv self first r c dir pre st"
  shows "play_inv self first r c dir (pre @ [letter]) st'"
proof -
  let ?p = "cell_of r c dir (length pre)"
  from i have pos: "(v_row st, v_col st) = ?p" and u: "undoable (board self) (v_self st)"
    and lp: "set (last_play (v_self st)) \<subseteq> cell_of r c dir ` {..<length pre}"
    and fl: "v_valid_play st = fits self pre r c dir"
      "v_play_through_center st = (first \<and> through_center self pre r c dir)"
      "v_touching_word st = (\<not> first \<and> touches self pre r c dir)"
    by (simp_all add: play_inv_def)
  from pos have rc: "v_row st = fst ?p" "v_col st = snd ?p" by (metis fst_conv, metis snd_conv)
  from u have sh: "same_shape (board self) (board (v_self st))" by (simp add: undoable_def)
  have u': "undoable (board self) (v_self st')" using s u by (rule set_letter_undoable)
  have lpsub: "cell_of r c dir ` {..<length pre} \<subseteq> cell_of r c dir ` {..<length (pre @ [letter])}"
    by auto
  show ?thesis
  proof (cases "on_grid self ?p")
    case False
    with sh rc have "\<not> is_valid_coord (v_self st) (v_row st) (v_col st)"
      by (simp add: on_grid_def is_valid_coord_same_shape)
    from set_letter_off_grid [OF this] s
    have st': "st' = advance dir (st\<lparr>v_valid_play := False\<rparr>)" by simp
    have pos': "(v_row st', v_col st') = cell_of r c dir (length (pre @ [letter]))"
      using advance_cell [of "st\<lparr>v_valid_play := False\<rparr>" r c dir "length pre"] pos st'
      by simp
    from False have nt: "\<not> touches_at self ?p" by (simp add: touches_at_def)
    from st' have "v_self st' = v_self st" by simp
    with pos' u' lp lpsub fl False nt st' show ?thesis
      unfolding play_inv_def fits_snoc through_center_snoc touches_snoc by auto
  next
    case True
    with sh rc have v: "is_valid_coord (v_self st) (v_row st) (v_col st)"
      by (simp add: on_grid_def is_valid_coord_same_shape)
    from set_letter_on_grid [OF s v] obtain tile t where
      tile: "py_index2 (board (v_self st)) (v_row st) (v_col st) = Inr tile"
      and t: "if \<not> v_touching_word st \<and> \<not> first
              then is_touching_word (v_self st) (v_row st) (v_col st) dir = Inr t else \<not> t"
      and vp: "v_valid_play st' = (v_valid_play st \<and> (tile = None \<or> tile = Some letter))"
      and pc: "v_play_through_center st'
           = (v_play_through_center st
              \<or> (first \<and> v_row st = fst (center_cell self) \<and> v_col st = snd (center_cell self)))"
      and tw: "v_touching_word st' = (v_touching_word st \<or> t)"
      and ps: "(v_row st', v_col st') = (v_row (advance dir st), v_col (advance dir st))"
      and lp': "last_play (v_self st')
           = (if tile = None then last_play (v_self st) @ [(v_row st, v_col st)]
              else last_play (v_self st))"
      by blast
    have pos': "(v_row st', v_col st') = cell_of r c dir (length (pre @ [letter]))"
      using advance_cell [OF pos] ps by simp
    from lp have n0: "?p \<notin> set (last_play (v_self st))" by (auto dest: cell_of_inj)
    from read_initial [OF u True n0] tile rc True have ta: "tile_at self ?p = tile"
      by (simp add: tile_at_def)
    have lps: "set (last_play (v_self st')) \<subseteq> cell_of r c dir ` {..<length (pre @ [letter])}"
    proof (cases "tile = None")
      case True
      with lp' pos have "set (last_play (v_self st')) = Set.insert ?p (set (last_play (v_self st)))"
        by simp
      with lp show ?thesis by auto
    next
      case False
      with lp' lp lpsub show ?thesis by auto
    qed
    have f1: "v_valid_play st' = fits self (pre @ [letter]) r c dir"
      using vp fl(1) True ta by (simp add: fits_snoc)
    have ce: "(v_row st = fst (center_cell self) \<and> v_col st = snd (center_cell self))
              = (?p = center_cell self)"
      using rc by (metis prod.collapse)
    have f2: "v_play_through_center st' = (first \<and> through_center self (pre @ [letter]) r c dir)"
      using pc fl(2) True ce by (auto simp: through_center_snoc)
    have f3: "v_touching_word st' = (\<not> first \<and> touches self (pre @ [letter]) r c dir)"
    proof (cases "\<not> v_touching_word st \<and> \<not> first")
      case False
      with t tw fl(3) show ?thesis by (auto simp: touches_snoc)
    next
      case c: True
      with fl(3) have nt: "\<not> touches self pre r c dir" by simp
      from c t rc have "is_touching_word (v_self st) (fst ?p) (snd ?p) dir = Inr t" by simp
      from is_touching_word_correct [OF u lp True nt this] have "t = touches_at self ?p" .
      with c tw nt show ?thesis by (simp add: touches_snoc)
    qed
    from pos' u' lps f1 f2 f3 show ?thesis by (simp add: play_inv_def)
  qed
qed

lemma play_inv_loop:
  assumes "set_word_loop first (fst (center_cell self)) (snd (center_cell self)) dir rest st
             = Inr st'"
    and "play_inv self first r c dir pre st"
  shows "play_inv self first r c dir (pre @ rest) st'"
  using assms
proof (induction rest arbitrary: pre st)
  case Nil
  then show ?case by simp
next
  case (Cons letter rest)
  from Cons.prems(1) obtain st1 where
    1: "set_letter first (fst (center_cell self)) (snd (center_cell self)) dir letter st = Inr st1"
    and 2: "set_word_loop first (fst (center_cell self)) (snd (center_cell self)) dir rest st1
              = Inr st'"
    by (auto split: sum.splits)
  from play_inv_step [OF 1 Cons.prems(2)] have "play_inv self first r c dir (pre @ [letter]) st1" .
  from Cons.IH [OF 2 this] show ?case by simp
qed

text \<open>
  Whenever \<open>set_word\<close> returns, its validity flag is the legality of the claim.
\<close>

lemma set_word_valid_iff_legal:
  assumes "set_word self word r c dir = Inr ((score, ok), self1)"
  shows "ok = legal self (upper word) r c dir"
proof -
  let ?self0 = "self\<lparr>last_play := []\<rparr>"
  let ?first = "is_empty ?self0"
  from assms obtain n st where n: "len_first_row (board self) = Inr n"
    and l: "set_word_loop ?first (int (length (board self)) div 2) (int n div 2) dir (upper word)
          \<lparr>v_self = ?self0, v_row = r, v_col = c, v_valid_play = True,
           v_play_through_center = False, v_touching_word = False, v_score = 0,
           v_cross_scores = 0, v_total_multiplier = 1\<rparr> = Inr st"
    and ok: "ok = (v_valid_play st \<and> \<not> (?first \<and> \<not> v_play_through_center st)
                  \<and> \<not> (\<not> ?first \<and> \<not> v_touching_word st))"
    by (auto simp: set_word_def Let_def split: sum.splits)
  from n have cc: "center_cell self = (int (length (board self)) div 2, int n div 2)"
    by (auto simp: center_cell_def dest: len_first_row_hd)
  have fe: "?first = is_empty self" by (simp add: is_empty_def)
  have "play_inv self ?first r c dir []
          \<lparr>v_self = ?self0, v_row = r, v_col = c, v_valid_play = True,
           v_play_through_center = False, v_touching_word = False, v_score = 0,
           v_cross_scores = 0, v_total_multiplier = 1\<rparr>"
    using undoable_start [of self]
    by (simp add: play_inv_def fits_Nil through_center_Nil touches_Nil cell_of_def)
  from play_inv_loop [OF _ this, of "upper word" st] l cc
  have "play_inv self ?first r c dir (upper word) st" by simp
  with ok fe show ?thesis by (auto simp: play_inv_def legal_def)
qed

section \<open>The board claims\<close>

text \<open>The boards used as concrete inputs, and the two halves of a result.\<close>

definition default_board :: Board where
  "default_board =
     \<lparr>board = create_2d_list 15 15 None, multipliers = SCRABBLE_BOARD_MULTIPLIERS,
      letter_scoring = LETTER_SCORING, last_play = []\<rparr>"

definition outcome :: "(py_error \<times> Board) + ('a \<times> Board) \<Rightarrow> py_error + 'a" where
  "outcome x = (case x of Inl (e, self) \<Rightarrow> Inl e | Inr (y, self) \<Rightarrow> Inr y)"

definition board_after :: "(py_error \<times> Board) + ('a \<times> Board) \<Rightarrow> Board" where
  "board_after x = (case x of Inl (e, self) \<Rightarrow> self | Inr (y, self) \<Rightarrow> self)"

definition brook_board :: Board where
  "brook_board = board_after (play_word default_board ''BROOK'' 7 3 RIGHT)"

definition brooklyn_board :: Board where
  "brooklyn_board = board_after (play_word default_board ''BROOKLYN'' 7 7 RIGHT)"

lemma Board_init_default: "Board_init None None None = Inr default_board"
  by code_simp

text \<open>
  When \<open>set_word\<close> returns with its validity flag false, \<open>play_word\<close> undoes the
  attempt: it returns \<open>INVALID_PLAY\<close> and leaves the grid, the multipliers and the
  scoring of the board before the call, with \<open>last_play\<close> empty, and \<open>undo_play\<close>
  on that board changes nothing.
\<close>

lemma play_word_undoes_returned_attempt:
  assumes sw: "set_word self word r c dir = Inr ((score, False), self1)"
  shows "play_word self word r c dir = Inr (INVALID_PLAY, self\<lparr>last_play := []\<rparr>)
         \<and> undo_play (self\<lparr>last_play := []\<rparr>) = Inr (self\<lparr>last_play := []\<rparr>)"
proof -
  from set_word_undoable [OF sw] have u: "undoable (board self) self1" .
  from set_word_frame [OF sw]
  have "self1\<lparr>board := board self, last_play := []\<rparr> = self\<lparr>last_play := []\<rparr>"
    by simp
  with undo_play_undoable [OF u] sw
  have 1: "play_word self word r c dir = Inr (INVALID_PLAY, self\<lparr>last_play := []\<rparr>)"
    by (simp add: play_word_def)
  have 2: "undo_play (self\<lparr>last_play := []\<rparr>) = Inr (self\<lparr>last_play := []\<rparr>)"
    by (simp add: undo_play_def)
  from 1 2 show ?thesis ..
qed

text \<open>
  C2, at a failing input. The claim: after an attempt that is not accepted, the grid is
  as it was before the call, the result is \<open>INVALID_PLAY\<close>, and a further
  \<open>undo_play\<close> changes nothing. On the board that holds BROOK, the word CAR downwards
  from row 0, column 14 touches no tile and is not legal. Its C is written to the empty
  cell in row 0, column 14 and recorded in \<open>last_play\<close>; reading column 15 then raises
  \<open>IndexError\<close>, so \<open>play_word\<close> returns no result and never reaches
  \<open>undo_play\<close>: the C stays on the grid. The same word from row 2, column 2 to the
  right, away from the edge, is undone.
\<close>

theorem illegal_play_at_edge_keeps_tile:
  "\<not> legal brook_board (upper ''CAR'') 0 14 DOWN
   \<and> py_index2 (board brook_board) 0 14 = Inr None
   \<and> outcome (play_word brook_board ''CAR'' 0 14 DOWN) = Inl IndexError
   \<and> py_index2 (board (board_after (play_word brook_board ''CAR'' 0 14 DOWN))) 0 14
       = Inr (Some CHR ''C'')
   \<and> last_play (board_after (play_word brook_board ''CAR'' 0 14 DOWN)) = [(0, 14)]
   \<and> \<not> legal brook_board (upper ''CAR'') 2 2 RIGHT
   \<and> play_word brook_board ''CAR'' 2 2 RIGHT
       = Inr (INVALID_PLAY, brook_board\<lparr>last_play := []\<rparr>)"
  by code_simp

text \<open>
  C3, at failing inputs. The claim: the test for a perpendicular neighbour and the walk
  of the cross-word score read only cells of the grid and stop at its edge. On the
  empty default board, placing A downwards at row 0, column 14 reads column 15 and
  raises \<open>IndexError\<close>, with the tile left on the board. After BROOKLYN is played
  from the centre to column 14 of row 7, the walk to the left of row 7, column 0 reads
  column \<open>-1\<close>, which is column 14, and collects the eight tiles of BROOKLYN (17
  points): the attempt AT downwards from row 6, column 0 is scored 60, not 6.
\<close>

theorem cross_word_reads_leave_grid:
  "outcome (play_word default_board ''A'' 0 14 DOWN) = Inl IndexError
   \<and> last_play (board_after (play_word default_board ''A'' 0 14 DOWN)) = [(0, 14)]
   \<and> py_index2 (board (board_after (play_word default_board ''A'' 0 14 DOWN))) 0 14
       = Inr (Some CHR ''A'')
   \<and> get_cross_word_score_piece brooklyn_board 7 0 RIGHT True = Inr 17
   \<and> outcome (set_word brooklyn_board ''AT'' 6 0 DOWN) = Inr (60, False)"
  by code_simp

text \<open>
  C1, at a failing input. The claim: an attempt is accepted exactly when every letter
  lands on the grid without a conflicting letter and, on a board that is not empty,
  some letter overlaps or is next to a tile that was there before. On the board that
  holds BROOKLYN in row 7, columns 7 to 14, the word NO downwards from row 7,
  column 14 lies on the grid, its N lands on the N of BROOKLYN and its O on an empty
  cell; the attempt is not accepted: reading column 15 raises \<open>IndexError\<close>.
\<close>

theorem legal_play_at_edge_raises:
  "outcome (play_word default_board ''BROOKLYN'' 7 7 RIGHT) = Inr 132
   \<and> legal brooklyn_board (upper ''NO'') 7 14 DOWN
   \<and> py_index2 (board brooklyn_board) 7 14 = Inr (Some CHR ''N'')
   \<and> py_index2 (board brooklyn_board) 8 14 = Inr None
   \<and> outcome (play_word brooklyn_board ''NO'' 7 14 DOWN) = Inl IndexError
   \<and> py_index2 (board (board_after (play_word brooklyn_board ''NO'' 7 14 DOWN))) 8 14
       = Inr (Some CHR ''O'')"
  by code_simp

text \<open>The grids used as concrete inputs of the constructor.\<close>

definition small_multipliers :: "string list list" where
  "small_multipliers = [[''1L'', ''2W'', ''1L''], [''3L'', ''1L'', ''3L'']]"

definition mismatched_board :: Board where
  "mismatched_board =
     \<lparr>board = [[None]], multipliers = small_multipliers,
      letter_scoring = LETTER_SCORING, last_play = []\<rparr>"

definition small_board :: Board where
  "small_board =
     \<lparr>board = create_2d_list 2 3 None, multipliers = small_multipliers,
      letter_scoring = LETTER_SCORING, last_play = []\<rparr>"

text \<open>
  C8. The claim: the grid and the multipliers of a board have the same dimensions at all
  times, and a constructor call with a grid and a multiplier grid of different sizes
  fails with a dimension mismatch. The constructor compares nothing: with a grid of one
  cell and multipliers of two rows of three it returns a board that holds both.
\<close>

theorem Board_init_accepts_mismatch:
  "Board_init (Some [[None]]) (Some small_multipliers) None = Inr mismatched_board
   \<and> length (board mismatched_board) \<noteq> length (multipliers mismatched_board)"
  by code_simp

lemma set_board_None:
  "set_board None bm = Inr g \<Longrightarrow>
   length g = length (set_board_multipliers bm)
   \<and> (\<forall>line \<in> set g. length line = length (hd (set_board_multipliers bm)))"
  by (auto simp: set_board_def set_board_multipliers_def create_2d_list_def
      split: option.splits sum.splits dest: len_first_row_hd)

text \<open>
  C8 as the code has it. Without a grid, the constructor builds a grid with as many
  rows as the multipliers (the given ones or the default) and every row as long as
  their first row. With a grid, it returns a board that holds the grid as given beside
  those multipliers, whatever the sizes. A call of \<open>set_word\<close> that returns leaves the
  lengths of the rows of the grid and the multipliers as they were.
\<close>

theorem Board_init_dimensions:
  "(Board_init None bm ls = Inr self \<longrightarrow>
      length (board self) = length (multipliers self)
      \<and> (\<forall>line \<in> set (board self). length line = length (hd (multipliers self))))
   \<and> Board_init (Some g) bm ls
       = Inr \<lparr>board = g, multipliers = set_board_multipliers bm,
              letter_scoring = set_letter_scoring ls, last_play = []\<rparr>
   \<and> (set_word self0 word r c dir = Inr (res, self1) \<longrightarrow>
        map length (board self1) = map length (board self0)
        \<and> multipliers self1 = multipliers self0)"
proof -
  have 1: "Board_init None bm ls = Inr self \<longrightarrow>
      length (board self) = length (multipliers self)
      \<and> (\<forall>line \<in> set (board self). length line = length (hd (multipliers self)))"
    using set_board_None [of bm] by (auto simp: Board_init_def split: sum.splits)
  have 2: "Board_init (Some g) bm ls
       = Inr \<lparr>board = g, multipliers = set_board_multipliers bm,
              letter_scoring = set_letter_scoring ls, last_play = []\<rparr>"
    by (simp add: Board_init_def set_board_def)
  have 3: "set_word self0 word r c dir = Inr (res, self1) \<longrightarrow>
        map length (board self1) = map length (board self0)
        \<and> multipliers self1 = multipliers self0"
    using set_word_undoable [of self0 word r c dir res self1]
      set_word_frame [of self0 word r c dir res self1]
    by (auto simp: undoable_def same_shape_def)
  from 1 2 3 show ?thesis by blast
qed

theorem Board_init_dimensions_witness:
  "Board_init None (Some small_multipliers) None = Inr small_board
   \<and> length (board small_board) = length (multipliers small_board)
   \<and> list_all (\<lambda>line. length line = length (hd (multipliers small_board))) (board small_board)
   \<and> set_word default_board ''BROOK'' 7 3 RIGHT = Inr ((28, True), brook_board)
   \<and> map length (board brook_board) = map length (board default_board)
   \<and> multipliers brook_board = multipliers default_board"
proof -
  have i: "Board_init None (Some small_multipliers) None = Inr small_board" by code_simp
  have s: "set_word default_board ''BROOK'' 7 3 RIGHT = Inr ((28, True), brook_board)" by code_simp
  from Board_init_dimensions [where bm = "Some small_multipliers" and ls = None
      and self = small_board and ?self0.0 = default_board and word = "''BROOK''" and r = 7
      and c = 3 and dir = RIGHT and res = "(28, True)" and ?self1.0 = brook_board] i s
  show ?thesis by (simp add: list_all_iff)
qed

end
